theory Spec2Isabelle
  imports Main "HOL-Library.Sublist"
begin

chapter \<open>Variable-group importer: flattening, classification, merge and publish\<close>

text \<open>
  A shallow embedding of \<^verbatim>\<open>src/app.py\<close>: the pure helpers (\<^verbatim>\<open>is_secret_key\<close>,
  \<^verbatim>\<open>flatten_json\<close>, \<^verbatim>\<open>parse_web_config\<close>), the two remote calls
  (\<^verbatim>\<open>get_project_id\<close>, \<^verbatim>\<open>create_variable_group\<close>) and the three request handlers
  that mutate the session (\<^verbatim>\<open>load_data\<close>, \<^verbatim>\<open>update_variables\<close>, \<^verbatim>\<open>create_vg\<close>).
\<close>

section \<open>Text\<close>

text \<open>
  A Python \<^verbatim>\<open>str\<close> is a sequence of Unicode code points, and the program's own
  literals leave Latin-1, so text is a list of code points. \<open>S\<close> embeds an ASCII literal.
\<close>

type_synonym pystr = "nat list"

definition S :: "string \<Rightarrow> pystr" where
  "S s = map of_char s"

text \<open>\<^verbatim>\<open>str(n)\<close> for a natural number and for an integer: decimal, most significant digit first.\<close>

function str_nat :: "nat \<Rightarrow> pystr" where
  "str_nat n = (if n < 10 then [48 + n] else str_nat (n div 10) @ [48 + n mod 10])"
  by pat_completeness auto
termination
  by (relation "measure id") auto

declare str_nat.simps [simp del]

definition str_int :: "int \<Rightarrow> pystr" where
  "str_int i = (if i < 0 then S ''-'' @ str_nat (nat (- i)) else str_nat (nat i))"

definition str_bool :: "bool \<Rightarrow> pystr" where
  "str_bool b = (if b then S ''True'' else S ''False'')"

text \<open>\<^verbatim>\<open>sep.join(xs)\<close>.\<close>

fun join :: "pystr \<Rightarrow> pystr list \<Rightarrow> pystr" where
  "join sep [] = []"
| "join sep [x] = x"
| "join sep (x # y # ys) = x @ sep @ join sep (y # ys)"

text \<open>
  \<^verbatim>\<open>str.isspace\<close> on one code point: the code points Python counts as whitespace, which
  are the ones \<^verbatim>\<open>str.strip()\<close> removes from both ends.
\<close>

definition py_isspace :: "nat \<Rightarrow> bool" where
  "py_isspace c =
     ((9 \<le> c \<and> c \<le> 13) \<or> (28 \<le> c \<and> c \<le> 32) \<or> c = 0x85 \<or> c = 0xA0 \<or> c = 0x1680
      \<or> (0x2000 \<le> c \<and> c \<le> 0x200A) \<or> c = 0x2028 \<or> c = 0x2029 \<or> c = 0x202F
      \<or> c = 0x205F \<or> c = 0x3000)"

definition strip :: "pystr \<Rightarrow> pystr" where
  "strip s = rev (dropWhile py_isspace (rev (dropWhile py_isspace s)))"

text \<open>\<^verbatim>\<open>s.split(c)\<close> for a separator of one character; the result is never empty.\<close>

fun split_on :: "nat \<Rightarrow> pystr \<Rightarrow> pystr list" where
  "split_on c [] = [[]]"
| "split_on c (x # xs) =
     (if x = c then [] # split_on c xs
      else (case split_on c xs of w # ws \<Rightarrow> (x # w) # ws | [] \<Rightarrow> [[x]]))"

section \<open>Python dictionaries\<close>

text \<open>
  A \<^verbatim>\<open>dict\<close> keeps insertion order: storing under a key that is present replaces the
  value where the key stands, storing under a new key appends. It is an association list
  that \<open>dict_set\<close> keeps free of duplicate keys.
\<close>

fun dict_set :: "'k \<Rightarrow> 'v \<Rightarrow> ('k \<times> 'v) list \<Rightarrow> ('k \<times> 'v) list" where
  "dict_set k v [] = [(k, v)]"
| "dict_set k v ((k', v') # d) =
     (if k' = k then (k', v) # d else (k', v') # dict_set k v d)"

definition dict_of :: "('k \<times> 'v) list \<Rightarrow> ('k \<times> 'v) list" where
  "dict_of kvs = fold (\<lambda>(k, v) d. dict_set k v d) kvs []"

section \<open>JSON values\<close>

text \<open>
  What \<^verbatim>\<open>json.loads\<close> returns. A float is carried as the text \<^verbatim>\<open>str\<close> gives for it,
  which is all this program does with one.
\<close>

datatype scalar = SNull | SBool bool | SInt int | SFloat pystr | SStr pystr

datatype json = JScalar scalar | JArr "json list" | JObj "(pystr \<times> json) list"

abbreviation JNull :: json where "JNull \<equiv> JScalar SNull"
abbreviation JBool :: "bool \<Rightarrow> json" where "JBool b \<equiv> JScalar (SBool b)"
abbreviation JInt :: "int \<Rightarrow> json" where "JInt i \<equiv> JScalar (SInt i)"
abbreviation JStr :: "pystr \<Rightarrow> json" where "JStr s \<equiv> JScalar (SStr s)"

fun scalar_str :: "scalar \<Rightarrow> pystr" where
  "scalar_str SNull = S ''None''"
| "scalar_str (SBool b) = str_bool b"
| "scalar_str (SInt i) = str_int i"
| "scalar_str (SFloat r) = r"
| "scalar_str (SStr s) = s"

text \<open>
  \<^verbatim>\<open>str(x)\<close> as an f-string applies it. For a list or a dict it is Python's \<^verbatim>\<open>repr\<close>,
  which depends on the Unicode database; that part is the parameter \<open>rp\<close>.
\<close>

fun py_str :: "(json \<Rightarrow> pystr) \<Rightarrow> json \<Rightarrow> pystr" where
  "py_str rp (JScalar x) = scalar_str x"
| "py_str rp (JArr xs) = rp (JArr xs)"
| "py_str rp (JObj kvs) = rp (JObj kvs)"

fun type_name :: "json \<Rightarrow> pystr" where
  "type_name (JScalar SNull) = S ''NoneType''"
| "type_name (JScalar (SBool b)) = S ''bool''"
| "type_name (JScalar (SInt i)) = S ''int''"
| "type_name (JScalar (SFloat r)) = S ''float''"
| "type_name (JScalar (SStr s)) = S ''str''"
| "type_name (JArr xs) = S ''list''"
| "type_name (JObj kvs) = S ''dict''"

section \<open>Exceptions\<close>

datatype exn =
    KeyError pystr
  | AttributeError pystr
  | TypeError pystr
  | LibraryError pystr

text \<open>\<^verbatim>\<open>str(e)\<close>; a \<open>LibraryError\<close> carries the text of an exception raised by library code.\<close>

fun exn_str :: "exn \<Rightarrow> pystr" where
  "exn_str (KeyError k) = [0x27] @ k @ [0x27]"
| "exn_str (AttributeError m) = m"
| "exn_str (TypeError m) = m"
| "exn_str (LibraryError m) = m"

text \<open>\<^verbatim>\<open>x.get(k, default)\<close> and \<^verbatim>\<open>len(x)\<close> on a decoded JSON value.\<close>

fun json_get :: "json \<Rightarrow> pystr \<Rightarrow> json \<Rightarrow> exn + json" where
  "json_get (JObj kvs) k dflt = Inr (case map_of kvs k of Some v \<Rightarrow> v | None \<Rightarrow> dflt)"
| "json_get x k dflt =
     Inl (AttributeError ([0x27] @ type_name x @ [0x27] @ S '' object has no attribute ''
            @ [0x27] @ S ''get'' @ [0x27]))"

fun py_len :: "json \<Rightarrow> exn + nat" where
  "py_len (JObj kvs) = Inr (length kvs)"
| "py_len (JArr xs) = Inr (length xs)"
| "py_len (JScalar (SStr s)) = Inr (length s)"
| "py_len x =
     Inl (TypeError (S ''object of type '' @ [0x27] @ type_name x @ [0x27] @ S '' has no len()''))"

section \<open>SecretClassifier: \<^verbatim>\<open>is_secret_key\<close>\<close>

text \<open>The alternatives of \<^verbatim>\<open>SECRET_PATTERNS\<close>, in the order of the pattern.\<close>

definition SECRET_TOKENS :: "pystr list" where
  "SECRET_TOKENS =
     [S ''secret'', S ''token'', S ''password'', S ''passwd'', S ''apikey'', S ''api_key'',
      S ''client_secret'', S ''connectionstring'', S ''conn_str'', S ''key'']"

text \<open>
  One literal of the pattern against one character of the text under \<^verbatim>\<open>re.IGNORECASE\<close>.
  The literals are lower-case ASCII letters and the underscore. The text character matches
  when its lower-case form is the literal: the character itself, its ASCII capital, and
  the code points outside ASCII that Unicode folds to an ASCII letter (U+0130 and U+0131 to
  i, U+017F to s, U+212A to k).
\<close>

definition ci_match :: "nat \<Rightarrow> nat \<Rightarrow> bool" where
  "ci_match p c =
     (c = p \<or> (97 \<le> p \<and> p \<le> 122 \<and> c + 32 = p)
      \<or> (p = 0x69 \<and> (c = 0x130 \<or> c = 0x131))
      \<or> (p = 0x73 \<and> c = 0x17F)
      \<or> (p = 0x6B \<and> c = 0x212A))"

text \<open>Matching one alternative at the start of the text; the result is the text that is left.\<close>

fun match_lit :: "pystr \<Rightarrow> pystr \<Rightarrow> pystr option" where
  "match_lit [] s = Some s"
| "match_lit (p # ps) [] = None"
| "match_lit (p # ps) (c # cs) = (if ci_match p c then match_lit ps cs else None)"

text \<open>
  \<^verbatim>\<open>$\<close> without \<^verbatim>\<open>re.MULTILINE\<close>: at the end of the text, and also just before a
  newline that is the last character.
\<close>

definition at_dollar :: "pystr \<Rightarrow> bool" where
  "at_dollar rest = (rest = [] \<or> rest = [10])"

definition pattern_at :: "pystr \<Rightarrow> bool" where
  "pattern_at s =
     list_ex (\<lambda>t. case match_lit t s of Some rest \<Rightarrow> at_dollar rest | None \<Rightarrow> False)
       SECRET_TOKENS"

text \<open>\<^verbatim>\<open>bool(SECRET_PATTERNS.search(s))\<close>: the pattern is tried at every position.\<close>

fun re_search :: "pystr \<Rightarrow> bool" where
  "re_search [] = pattern_at []"
| "re_search (c # cs) = (pattern_at (c # cs) \<or> re_search cs)"

definition is_secret_key :: "pystr \<Rightarrow> bool" where
  "is_secret_key key_path =
     (let last1 = last (split_on 0x2E key_path);
          last2 = last (split_on 0x5F last1)
      in re_search last2)"

subsection \<open>The classifier as the specification words it\<close>

definition last_segment :: "nat \<Rightarrow> pystr \<Rightarrow> pystr" where
  "last_segment c s = rev (takeWhile (\<lambda>x. x \<noteq> c) (rev s))"

definition ci_ends_with :: "pystr \<Rightarrow> pystr \<Rightarrow> bool" where
  "ci_ends_with s t =
     (length t \<le> length s \<and> list_all2 ci_match t (drop (length s - length t) s))"

definition is_secret_spec :: "pystr \<Rightarrow> bool" where
  "is_secret_spec k =
     list_ex (ci_ends_with (last_segment 0x5F (last_segment 0x2E k))) SECRET_TOKENS"

section \<open>PathFlattener: \<^verbatim>\<open>flatten_json\<close>\<close>

definition new_key :: "pystr \<Rightarrow> pystr \<Rightarrow> pystr" where
  "new_key pk k = (if pk \<noteq> [] then pk @ S ''.'' @ k else k)"

text \<open>
  \<^verbatim>\<open>_walk\<close> writes into the dictionary \<^verbatim>\<open>out\<close> of the enclosing call; here it takes
  the dictionary and returns it updated. \<open>walk_items\<close> is the loop over \<^verbatim>\<open>x.items()\<close>,
  \<open>walk_elems\<close> the loop over \<^verbatim>\<open>enumerate(x)\<close> with its running index.
\<close>

fun walk :: "json \<Rightarrow> pystr \<Rightarrow> (pystr \<times> pystr) list \<Rightarrow> (pystr \<times> pystr) list"
  and walk_items ::
    "(pystr \<times> json) list \<Rightarrow> pystr \<Rightarrow> (pystr \<times> pystr) list \<Rightarrow> (pystr \<times> pystr) list"
  and walk_elems ::
    "json list \<Rightarrow> nat \<Rightarrow> pystr \<Rightarrow> (pystr \<times> pystr) list \<Rightarrow> (pystr \<times> pystr) list"
where
  "walk (JObj kvs) pk out = walk_items kvs pk out"
| "walk (JArr xs) pk out = walk_elems xs 0 pk out"
| "walk (JScalar x) pk out = dict_set pk (if x = SNull then [] else scalar_str x) out"
| "walk_items [] pk out = out"
| "walk_items ((k, v) # kvs) pk out = walk_items kvs pk (walk v (new_key pk k) out)"
| "walk_elems [] i pk out = out"
| "walk_elems (v # vs) i pk out =
     walk_elems vs (Suc i) pk (walk v (new_key pk (str_nat i)) out)"

definition flatten_json :: "json \<Rightarrow> pystr \<Rightarrow> (pystr \<times> pystr) list" where
  "flatten_json obj parent_key = walk obj parent_key []"

subsection \<open>Flattening as the specification words it\<close>

text \<open>
  The path of a node is absent at the root. A member's path is the member name alone at
  the root and \<open>parent.member\<close> elsewhere; an element's path is built the same way from
  its decimal index. Every scalar gives one entry, in document order, and the entries are
  stored into an empty mapping one after the other.
\<close>

fun child_path :: "pystr option \<Rightarrow> pystr \<Rightarrow> pystr" where
  "child_path None m = m"
| "child_path (Some p) m = p @ S ''.'' @ m"

fun spec_leaves :: "json \<Rightarrow> pystr option \<Rightarrow> (pystr \<times> pystr) list"
  and spec_members :: "(pystr \<times> json) list \<Rightarrow> pystr option \<Rightarrow> (pystr \<times> pystr) list"
  and spec_elements :: "json list \<Rightarrow> nat \<Rightarrow> pystr option \<Rightarrow> (pystr \<times> pystr) list"
where
  "spec_leaves (JScalar x) p =
     [(case p of None \<Rightarrow> [] | Some q \<Rightarrow> q, if x = SNull then [] else scalar_str x)]"
| "spec_leaves (JObj kvs) p = spec_members kvs p"
| "spec_leaves (JArr xs) p = spec_elements xs 0 p"
| "spec_members [] p = []"
| "spec_members ((k, v) # kvs) p = spec_leaves v (Some (child_path p k)) @ spec_members kvs p"
| "spec_elements [] i p = []"
| "spec_elements (v # vs) i p =
     spec_leaves v (Some (child_path p (str_nat i))) @ spec_elements vs (Suc i) p"

definition flatten_spec :: "json \<Rightarrow> (pystr \<times> pystr) list" where
  "flatten_spec x = dict_of (spec_leaves x None)"

text \<open>
  The same description with the rule the code applies: the member name (or index) alone
  whenever the parent path is the empty text.
\<close>

fun path_leaves :: "json \<Rightarrow> pystr \<Rightarrow> (pystr \<times> pystr) list"
  and path_members :: "(pystr \<times> json) list \<Rightarrow> pystr \<Rightarrow> (pystr \<times> pystr) list"
  and path_elements :: "json list \<Rightarrow> nat \<Rightarrow> pystr \<Rightarrow> (pystr \<times> pystr) list"
where
  "path_leaves (JScalar x) p = [(p, if x = SNull then [] else scalar_str x)]"
| "path_leaves (JObj kvs) p = path_members kvs p"
| "path_leaves (JArr xs) p = path_elements xs 0 p"
| "path_members [] p = []"
| "path_members ((k, v) # kvs) p =
     path_leaves v (if p = [] then k else p @ S ''.'' @ k) @ path_members kvs p"
| "path_elements [] i p = []"
| "path_elements (v # vs) i p =
     path_leaves v (if p = [] then str_nat i else p @ S ''.'' @ str_nat i)
       @ path_elements vs (Suc i) p"

text \<open>A document none of whose top-level members has the empty name.\<close>

fun top_names_nonempty :: "json \<Rightarrow> bool" where
  "top_names_nonempty (JObj kvs) = list_all (\<lambda>kv. fst kv \<noteq> []) kvs"
| "top_names_nonempty x = True"

section \<open>LegacyConfigParser: \<^verbatim>\<open>parse_web_config\<close>\<close>

text \<open>
  An element as \<^verbatim>\<open>xml.etree.ElementTree\<close> holds it: tag, attribute dictionary, child
  elements. \<^verbatim>\<open>ET.fromstring\<close> is library code; the parser below starts from the root
  element it returns, and a document that is not well-formed is the \<open>Inl\<close> case of the
  request in \<open>load_data\<close>.
\<close>

datatype xml = Element (tag: pystr) (attrib: "(pystr \<times> pystr) list") (children: "xml list")

text \<open>\<^verbatim>\<open>e.find(t)\<close>, \<^verbatim>\<open>e.findall(t)\<close> for a plain tag name, and \<^verbatim>\<open>e.attrib.get(a)\<close>.\<close>

definition xml_find :: "xml \<Rightarrow> pystr \<Rightarrow> xml option" where
  "xml_find e t = find (\<lambda>c. tag c = t) (children e)"

definition xml_findall :: "xml \<Rightarrow> pystr \<Rightarrow> xml list" where
  "xml_findall e t = filter (\<lambda>c. tag c = t) (children e)"

definition attrib_get :: "xml \<Rightarrow> pystr \<Rightarrow> pystr option" where
  "attrib_get e a = map_of (attrib e) a"

text \<open>The loop over the \<^verbatim>\<open>add\<close> elements of \<^verbatim>\<open>appSettings\<close>.\<close>

fun app_settings_loop ::
  "bool \<Rightarrow> xml list \<Rightarrow> (pystr \<times> pystr) list \<Rightarrow> (pystr \<times> pystr) list" where
  "app_settings_loop section_prefix [] out = out"
| "app_settings_loop section_prefix (add # adds) out =
     app_settings_loop section_prefix adds
       (case attrib_get add (S ''key'') of
          None \<Rightarrow> out
        | Some k \<Rightarrow>
            (case attrib_get add (S ''value'') of
               None \<Rightarrow> out
             | Some v \<Rightarrow>
                 if k \<noteq> []
                 then dict_set (if section_prefix then S ''appSettings.'' @ k else k) v out
                 else out))"

text \<open>The loop over the \<^verbatim>\<open>add\<close> elements of \<^verbatim>\<open>connectionStrings\<close>.\<close>

fun conns_loop ::
  "bool \<Rightarrow> xml list \<Rightarrow> (pystr \<times> pystr) list \<Rightarrow> (pystr \<times> pystr) list" where
  "conns_loop section_prefix [] out = out"
| "conns_loop section_prefix (add # adds) out =
     conns_loop section_prefix adds
       (case attrib_get add (S ''name'') of
          None \<Rightarrow> out
        | Some name \<Rightarrow>
            (case attrib_get add (S ''connectionString'') of
               None \<Rightarrow> out
             | Some cs \<Rightarrow>
                 if name \<noteq> []
                 then dict_set (if section_prefix then S ''connectionStrings.'' @ name else name)
                        cs out
                 else out))"

definition parse_web_config :: "xml \<Rightarrow> bool \<Rightarrow> (pystr \<times> pystr) list" where
  "parse_web_config root section_prefix =
     (let out = [];
          out = (case xml_find root (S ''appSettings'') of
                   None \<Rightarrow> out
                 | Some app_settings \<Rightarrow>
                     app_settings_loop section_prefix (xml_findall app_settings (S ''add'')) out);
          out = (case xml_find root (S ''connectionStrings'') of
                   None \<Rightarrow> out
                 | Some conns \<Rightarrow>
                     conns_loop section_prefix (xml_findall conns (S ''add'')) out)
      in out)"

section \<open>Session state and responses\<close>

text \<open>
  A row of the variable table is a dictionary with the members \<^verbatim>\<open>key\<close>, \<^verbatim>\<open>value\<close> and
  \<^verbatim>\<open>isSecret\<close>. The rows the program builds have all three; a row sent by the client may
  lack any of them, which the code meets with \<^verbatim>\<open>var["key"]\<close> (raises) and
  \<^verbatim>\<open>row.get(..., default)\<close>. A member that is present is a text, respectively a boolean.
\<close>

record row =
  row_key :: "pystr option"
  row_value :: "pystr option"
  row_isSecret :: "bool option"

record form_data =
  fd_organization :: pystr
  fd_project :: pystr
  fd_pat_token :: pystr
  fd_variable_group_name :: pystr
  fd_vg_description :: pystr

text \<open>The Flask session: each of its two entries may be absent before \<^verbatim>\<open>init_session\<close>.\<close>

record session =
  sess_variables :: "row list option"
  sess_form_data :: "form_data option"

definition init_session :: "session \<Rightarrow> session" where
  "init_session s =
     (let s = (if sess_variables s = None then s\<lparr>sess_variables := Some []\<rparr> else s);
          s = (if sess_form_data s = None
               then s\<lparr>sess_form_data := Some
                      \<lparr>fd_organization = [], fd_project = [], fd_pat_token = [],
                       fd_variable_group_name = [],
                       fd_vg_description = S ''JSON / web.config'' @ [0x27] @ S ''den otomatik olu''
                                          @ [0x15F] @ S ''turuldu''\<rparr>\<rparr>
               else s)
      in s)"

text \<open>\<^verbatim>\<open>session.get("variables", [])\<close>.\<close>

definition session_variables :: "session \<Rightarrow> row list" where
  "session_variables s = (case sess_variables s of None \<Rightarrow> [] | Some vs \<Rightarrow> vs)"

text \<open>The body handed to \<^verbatim>\<open>jsonify\<close>; a member the handler does not set is \<open>None\<close>.\<close>

record response =
  resp_success :: bool
  resp_message :: "pystr option"
  resp_variables :: "row list option"
  resp_error_detail :: "json option"

definition failure :: "pystr \<Rightarrow> response" where
  "failure msg = \<lparr>resp_success = False, resp_message = Some msg, resp_variables = None,
                  resp_error_detail = None\<rparr>"

text \<open>The invariant of a VariableSet: no two records share a key.\<close>

definition keys_unique :: "row list \<Rightarrow> bool" where
  "keys_unique rows = distinct (map row_key rows)"

section \<open>VariableSetMerger: \<^verbatim>\<open>load_data\<close>\<close>

text \<open>
  The request of \<^verbatim>\<open>load_data\<close>. \<^verbatim>\<open>json.loads\<close> and \<^verbatim>\<open>ET.fromstring\<close> are library
  code: in place of the content text the request carries what each of them does with it,
  the decoded document or the text of the exception raised.
\<close>

record load_request =
  req_type :: "pystr option"
  req_json :: "pystr + json"
  req_xml :: "pystr + xml"

text \<open>
  \<^verbatim>\<open>{var["key"]: var for var in session.get("variables", [])}\<close>: a row without the member
  raises \<^verbatim>\<open>KeyError\<close>; a later row with the key of an earlier one takes its place.
\<close>

fun index_by_key :: "row list \<Rightarrow> (pystr \<times> row) list \<Rightarrow> exn + (pystr \<times> row) list" where
  "index_by_key [] current_vars = Inr current_vars"
| "index_by_key (var # vars) current_vars =
     (case row_key var of
        None \<Rightarrow> Inl (KeyError (S ''key''))
      | Some k \<Rightarrow> index_by_key vars (dict_set k var current_vars))"

text \<open>\<^verbatim>\<open>for k, v in flat.items(): current_vars[k] = {"key": k, "value": v, "isSecret": False}\<close>.\<close>

definition imported_row :: "pystr \<Rightarrow> pystr \<Rightarrow> row" where
  "imported_row k v = \<lparr>row_key = Some k, row_value = Some v, row_isSecret = Some False\<rparr>"

definition overlay :: "(pystr \<times> pystr) list \<Rightarrow> (pystr \<times> row) list \<Rightarrow> (pystr \<times> row) list" where
  "overlay flat current_vars = fold (\<lambda>(k, v) cv. dict_set k (imported_row k v) cv) flat current_vars"

text \<open>
  The tail the two import branches share: the values of the index become the session's
  variable set, and the answer reports how many keys were read.
\<close>

definition import_done :: "pystr \<Rightarrow> nat \<Rightarrow> (pystr \<times> row) list \<Rightarrow> session \<Rightarrow> response \<times> session" where
  "import_done label n current_vars s =
     (let s = s\<lparr>sess_variables := Some (map snd current_vars)\<rparr>
      in (\<lparr>resp_success = True,
           resp_message = Some (label @ S '': '' @ str_nat n @ S '' anahtar okundu.''),
           resp_variables = sess_variables s,
           resp_error_detail = None\<rparr>, s))"

definition load_data :: "load_request \<Rightarrow> session \<Rightarrow> response \<times> session" where
  "load_data req s0 =
     (let s = init_session s0 in
      case index_by_key (session_variables s) [] of
        Inl e \<Rightarrow> (failure (S ''Hata: '' @ exn_str e), s)
      | Inr current_vars \<Rightarrow>
          if req_type req = Some (S ''json'') then
            (case req_json req of
               Inl e \<Rightarrow> (failure (S ''JSON okunamad'' @ [0x131] @ S '': '' @ e), s)
             | Inr json_data \<Rightarrow>
                 let flat = flatten_json json_data []
                 in import_done (S ''JSON'') (length flat) (overlay flat current_vars) s)
          else if req_type req = Some (S ''xml'') then
            (case req_xml req of
               Inl e \<Rightarrow> (failure (S ''XML parse hatas'' @ [0x131] @ S '': '' @ e), s)
             | Inr root \<Rightarrow>
                 let xml_map = parse_web_config root False
                 in import_done (S ''XML'') (length xml_map) (overlay xml_map current_vars) s)
          else (failure (S ''Ge'' @ [0xE7] @ S ''ersiz t'' @ [0xFC] @ S ''r (json/xml).''), s))"

text \<open>
  The merge on its own: the variable set \<^verbatim>\<open>load_data\<close> stores for the existing rows
  and an incoming mapping.
\<close>

definition merge_vars :: "row list \<Rightarrow> (pystr \<times> pystr) list \<Rightarrow> exn + row list" where
  "merge_vars existing incoming =
     (case index_by_key existing [] of
        Inl e \<Rightarrow> Inl e
      | Inr current_vars \<Rightarrow> Inr (map snd (overlay incoming current_vars)))"

text \<open>The merge as the specification words it: flag and position of a present key kept.\<close>

definition merge_spec :: "row list \<Rightarrow> (pystr \<times> pystr) list \<Rightarrow> row list" where
  "merge_spec existing incoming =
     map (\<lambda>r. case row_key r of
                None \<Rightarrow> r
              | Some k \<Rightarrow> (case map_of incoming k of None \<Rightarrow> r | Some v \<Rightarrow> r\<lparr>row_value := Some v\<rparr>))
       existing
     @ map (\<lambda>(k, v). imported_row k v)
         (filter (\<lambda>(k, v). Some k \<notin> set (map row_key existing)) incoming)"

text \<open>What the code stores: the record of a present key is built anew, with the flag off.\<close>

definition merge_overwrite :: "row list \<Rightarrow> (pystr \<times> pystr) list \<Rightarrow> row list" where
  "merge_overwrite existing incoming =
     map (\<lambda>r. case row_key r of
                None \<Rightarrow> r
              | Some k \<Rightarrow> (case map_of incoming k of None \<Rightarrow> r | Some v \<Rightarrow> imported_row k v))
       existing
     @ map (\<lambda>(k, v). imported_row k v)
         (filter (\<lambda>(k, v). Some k \<notin> set (map row_key existing)) incoming)"

text \<open>An index each of whose entries stands under the key of its own row.\<close>

definition keyed :: "(pystr \<times> row) list \<Rightarrow> bool" where
  "keyed d = list_all (\<lambda>(k, r). row_key r = Some k) d"

section \<open>\<^verbatim>\<open>update_variables\<close>\<close>

record update_request =
  upd_variables :: "row list option"

definition update_variables :: "update_request \<Rightarrow> session \<Rightarrow> response \<times> session" where
  "update_variables req s0 =
     (let s = init_session s0;
          variables = (case upd_variables req of None \<Rightarrow> [] | Some vs \<Rightarrow> vs);
          s = s\<lparr>sess_variables := Some variables\<rparr>
      in (\<lparr>resp_success = True, resp_message = None, resp_variables = None,
           resp_error_detail = None\<rparr>, s))"

section \<open>RemotePublisher: \<^verbatim>\<open>get_project_id\<close>, \<^verbatim>\<open>create_variable_group\<close>, \<^verbatim>\<open>create_vg\<close>\<close>

text \<open>
  What the code reads of a \<^verbatim>\<open>requests\<close> response: the status code, the raw body
  \<^verbatim>\<open>r.text\<close>, and \<^verbatim>\<open>r.json()\<close>, which is the decoded body or raises (\<open>Inl\<close>, with the
  text of the exception).
\<close>

record http_response =
  status_code :: int
  body_text :: pystr
  body_json :: "pystr + json"

text \<open>
  A remote call that was attempted: the URL, the token whose Basic authorization header it
  carries, and for a submission the payload.
\<close>

datatype remote_call = GET pystr pystr | POST pystr pystr json

text \<open>
  The world outside the program: what \<^verbatim>\<open>requests.get\<close> and \<^verbatim>\<open>requests.post\<close> answer
  (a response, or \<open>Inl\<close> with the text of the exception they raise), and Python's
  \<^verbatim>\<open>repr\<close> of lists and dictionaries.
\<close>

record env =
  http_get :: "pystr \<Rightarrow> pystr \<Rightarrow> pystr + http_response"
  http_post :: "pystr \<Rightarrow> pystr \<Rightarrow> json \<Rightarrow> pystr + http_response"
  container_repr :: "json \<Rightarrow> pystr"

text \<open>
  \<^verbatim>\<open>get_project_id\<close> returns the pair \<^verbatim>\<open>(ok, pid_or_err)\<close>, or raises; beside it stands
  the list of the remote calls it attempted.
\<close>

definition get_project_id ::
  "env \<Rightarrow> pystr \<Rightarrow> pystr \<Rightarrow> pystr \<Rightarrow> (exn + bool \<times> json) \<times> remote_call list" where
  "get_project_id e organization project pat_token =
     (let url = S ''https://dev.azure.com/'' @ organization @ S ''/_apis/projects/'' @ project
                  @ S ''?api-version=7.1-preview.4''
      in ((case http_get e url pat_token of
             Inl m \<Rightarrow> Inl (LibraryError m)
           | Inr r \<Rightarrow>
               if status_code r = 200 then
                 (case body_json r of
                    Inl m \<Rightarrow> Inl (LibraryError m)
                  | Inr j \<Rightarrow>
                      (case json_get j (S ''id'') (JStr []) of
                         Inl x \<Rightarrow> Inl x
                       | Inr pid \<Rightarrow> Inr (True, pid)))
               else
                 let msg = (case body_json r of
                              Inl m \<Rightarrow> JStr (body_text r)
                            | Inr j \<Rightarrow>
                                (case json_get j (S ''message'') (JStr (body_text r)) of
                                   Inl x \<Rightarrow> JStr (body_text r)
                                 | Inr m \<Rightarrow> m))
                 in Inr (False,
                      JStr (str_int (status_code r) @ S '': '' @ py_str (container_repr e) msg))),
          [GET url pat_token]))"

text \<open>The dictionary literal stored for one row of the table.\<close>

definition variable_entry :: "row \<Rightarrow> json" where
  "variable_entry r =
     JObj ([(S ''value'', JStr (case row_value r of None \<Rightarrow> [] | Some v \<Rightarrow> v))]
           @ (if (case row_isSecret r of None \<Rightarrow> False | Some b \<Rightarrow> b)
              then [(S ''isSecret'', JBool True)] else []))"

text \<open>
  The loop over \<^verbatim>\<open>variables_table\<close> that fills \<^verbatim>\<open>variables\<close>; \<open>payload_key\<close> is
  \<^verbatim>\<open>str(row.get("key", "")).strip()\<close>.
\<close>

definition payload_key :: "row \<Rightarrow> pystr" where
  "payload_key r = strip (case row_key r of None \<Rightarrow> [] | Some k \<Rightarrow> k)"

fun variables_loop :: "row list \<Rightarrow> (pystr \<times> json) list \<Rightarrow> (pystr \<times> json) list" where
  "variables_loop [] variables = variables"
| "variables_loop (r # rows) variables =
     (let key = payload_key r
      in if key = [] then variables_loop rows variables
         else variables_loop rows (dict_set key (variable_entry r) variables))"

definition vg_payload :: "pystr \<Rightarrow> json \<Rightarrow> pystr \<Rightarrow> pystr \<Rightarrow> row list \<Rightarrow> json" where
  "vg_payload project project_id vg_name description variables_table =
     (let variables = variables_loop variables_table [];
          d = (if description \<noteq> [] then description else S ''Created via Flask UI'')
      in JObj
           [(S ''type'', JStr (S ''Vsts'')),
            (S ''name'', JStr vg_name),
            (S ''description'', JStr d),
            (S ''variables'', JObj variables),
            (S ''variableGroupProjectReferences'',
               JArr [JObj [(S ''projectReference'',
                              JObj [(S ''id'', project_id), (S ''name'', JStr project)]),
                           (S ''name'', JStr vg_name),
                           (S ''description'', JStr d)]])])"

definition create_variable_group ::
  "env \<Rightarrow> pystr \<Rightarrow> pystr \<Rightarrow> json \<Rightarrow> pystr \<Rightarrow> pystr \<Rightarrow> row list \<Rightarrow> pystr
     \<Rightarrow> (exn + http_response \<times> json) \<times> remote_call list" where
  "create_variable_group e organization project project_id vg_name description variables_table
       pat_token =
     (let url = S ''https://dev.azure.com/'' @ organization
                  @ S ''/_apis/distributedtask/variablegroups?api-version=7.1'';
          payload = vg_payload project project_id vg_name description variables_table
      in ((case http_post e url pat_token payload of
             Inl m \<Rightarrow> Inl (LibraryError m)
           | Inr r \<Rightarrow> Inr (r, payload)),
          [POST url pat_token payload]))"

text \<open>
  The body of the publish request; a member the client left out is \<open>None\<close> and is read
  with the default of \<^verbatim>\<open>data.get\<close>.
\<close>

record publish_request =
  pr_organization :: "pystr option"
  pr_project :: "pystr option"
  pr_pat_token :: "pystr option"
  pr_variable_group_name :: "pystr option"
  pr_vg_description :: "pystr option"
  pr_variables :: "row list option"

definition get_or_empty :: "pystr option \<Rightarrow> pystr" where
  "get_or_empty x = (case x of None \<Rightarrow> [] | Some v \<Rightarrow> v)"

text \<open>The \<^verbatim>\<open>form_data\<close> dictionary built from the request.\<close>

definition request_form :: "publish_request \<Rightarrow> form_data" where
  "request_form data =
     \<lparr>fd_organization = get_or_empty (pr_organization data),
      fd_project = get_or_empty (pr_project data),
      fd_pat_token = get_or_empty (pr_pat_token data),
      fd_variable_group_name = get_or_empty (pr_variable_group_name data),
      fd_vg_description = get_or_empty (pr_vg_description data)\<rparr>"

text \<open>The validation loop: the labels of the fields that are blank, in the order checked.\<close>

definition missing_fields :: "form_data \<Rightarrow> pystr list" where
  "missing_fields fd =
     map fst
       (filter (\<lambda>(label, val). strip val = [])
          [(S ''Organization'', fd_organization fd),
           (S ''Project'', fd_project fd),
           (S ''PAT Token'', fd_pat_token fd),
           (S ''Variable Group Name'', fd_variable_group_name fd)])"

text \<open>The catch-all handler of \<^verbatim>\<open>create_vg\<close>.\<close>

definition unexpected :: "exn \<Rightarrow> response" where
  "unexpected x = failure (S ''Beklenmeyen hata: '' @ exn_str x)"

text \<open>The f-string \<^verbatim>\<open>success_msg\<close>, given the three texts it embeds.\<close>

definition success_msg :: "pystr \<Rightarrow> pystr \<Rightarrow> pystr \<Rightarrow> pystr" where
  "success_msg rid rname n =
     S ''Variable Group ba'' @ [0x15F] @ S ''ar'' @ [0x131] @ S ''yla olu'' @ [0x15F]
     @ S ''turuldu! '' @ [0x1F389] @ S '' ID: '' @ rid @ S '' | Ad: '' @ rname
     @ S '' | De'' @ [0x11F] @ S ''i'' @ [0x15F] @ S ''ken say'' @ [0x131] @ S ''s'' @ [0x131]
     @ S '': '' @ n"

text \<open>
  The confirmation built from the decoded body of a successful submission; each of the
  three lookups and \<^verbatim>\<open>len\<close> may raise.
\<close>

definition success_response :: "env \<Rightarrow> json \<Rightarrow> exn + response" where
  "success_response e resp_data =
     (case json_get resp_data (S ''id'') JNull of
        Inl x \<Rightarrow> Inl x
      | Inr rid \<Rightarrow>
     (case json_get resp_data (S ''name'') JNull of
        Inl x \<Rightarrow> Inl x
      | Inr rname \<Rightarrow>
     (case json_get resp_data (S ''variables'') (JObj []) of
        Inl x \<Rightarrow> Inl x
      | Inr vs \<Rightarrow>
     (case py_len vs of
        Inl x \<Rightarrow> Inl x
      | Inr n \<Rightarrow>
          Inr \<lparr>resp_success = True,
               resp_message = Some
                 (success_msg (py_str (container_repr e) rid) (py_str (container_repr e) rname)
                    (str_nat n)),
               resp_variables = None,
               resp_error_detail = None\<rparr>))))"

text \<open>
  \<^verbatim>\<open>create_vg\<close>: the response, the session it leaves, and the remote calls attempted, in
  order.
\<close>

definition create_vg ::
  "env \<Rightarrow> publish_request \<Rightarrow> session \<Rightarrow> response \<times> session \<times> remote_call list" where
  "create_vg e data s0 =
     (let s = init_session s0;
          form = request_form data;
          s = s\<lparr>sess_form_data := Some form\<rparr>;
          variables = (case pr_variables data of None \<Rightarrow> [] | Some vs \<Rightarrow> vs);
          missing = missing_fields form
      in if missing \<noteq> [] then
           (failure (S ''Eksik alanlar: '' @ join (S '', '') missing), s, [])
         else if variables = [] then
           (failure (S ''En az bir de'' @ [0x11F] @ S ''i'' @ [0x15F] @ S ''ken ekleyin.''), s, [])
         else
           (case get_project_id e (fd_organization form) (fd_project form) (fd_pat_token form) of
              (Inl x, calls) \<Rightarrow> (unexpected x, s, calls)
            | (Inr (ok, pid_or_err), calls) \<Rightarrow>
                if \<not> ok then
                  (failure (S ''Proje bilgileri al'' @ [0x131] @ S ''namad'' @ [0x131] @ S '': ''
                            @ py_str (container_repr e) pid_or_err), s, calls)
                else
                  (case create_variable_group e (fd_organization form) (fd_project form)
                          pid_or_err (fd_variable_group_name form) (fd_vg_description form)
                          variables (fd_pat_token form) of
                     (Inl x, calls2) \<Rightarrow> (unexpected x, s, calls @ calls2)
                   | (Inr (resp, payload), calls2) \<Rightarrow>
                       if status_code resp = 200 \<or> status_code resp = 201 then
                         (case body_json resp of
                            Inl m \<Rightarrow> (unexpected (LibraryError m), s, calls @ calls2)
                          | Inr resp_data \<Rightarrow>
                              (case success_response e resp_data of
                                 Inl x \<Rightarrow> (unexpected x, s, calls @ calls2)
                               | Inr r \<Rightarrow> (r, s\<lparr>sess_variables := Some []\<rparr>, calls @ calls2)))
                       else
                         (\<lparr>resp_success = False,
                           resp_message = Some (S ''Hata: '' @ str_int (status_code resp)),
                           resp_variables = None,
                           resp_error_detail = Some
                             (case body_json resp of
                                Inl m \<Rightarrow> JObj [(S ''raw'', JStr (body_text resp))]
                              | Inr j \<Rightarrow> j)\<rparr>,
                          s, calls @ calls2))))"

subsection \<open>The publisher as the specification words it\<close>

text \<open>
  The message of a failed resolution: the \<^verbatim>\<open>message\<close> member when the body decodes to
  an object that has one, the raw body otherwise.
\<close>

definition best_effort_message :: "http_response \<Rightarrow> json" where
  "best_effort_message r =
     (case body_json r of
        Inr (JObj kvs) \<Rightarrow>
          (case map_of kvs (S ''message'') of Some m \<Rightarrow> m | None \<Rightarrow> JStr (body_text r))
      | _ \<Rightarrow> JStr (body_text r))"

text \<open>The two endpoints.\<close>

definition project_url :: "pystr \<Rightarrow> pystr \<Rightarrow> pystr" where
  "project_url organization project =
     S ''https://dev.azure.com/'' @ organization @ S ''/_apis/projects/'' @ project
       @ S ''?api-version=7.1-preview.4''"

definition variable_groups_url :: "pystr \<Rightarrow> pystr" where
  "variable_groups_url organization =
     S ''https://dev.azure.com/'' @ organization
       @ S ''/_apis/distributedtask/variablegroups?api-version=7.1''"

text \<open>The variables object of the payload, keyed by each record's key as it stands.\<close>

definition variables_spec :: "row list \<Rightarrow> (pystr \<times> json) list" where
  "variables_spec rows =
     map (\<lambda>r. (case row_key r of None \<Rightarrow> [] | Some k \<Rightarrow> k, variable_entry r))
       (filter (\<lambda>r. payload_key r \<noteq> []) rows)"

text \<open>The variables object the code builds: keyed by the trimmed key, a later record
  with the same trimmed key replacing the entry of an earlier one.\<close>

definition variables_trimmed :: "row list \<Rightarrow> (pystr \<times> json) list" where
  "variables_trimmed rows =
     dict_of (map (\<lambda>r. (payload_key r, variable_entry r))
                (filter (\<lambda>r. payload_key r \<noteq> []) rows))"

subsection \<open>Example requests and services\<close>

definition example_row :: row where
  "example_row = \<lparr>row_key = Some (S ''a''), row_value = Some (S ''1''), row_isSecret = Some False\<rparr>"

definition example_request :: publish_request where
  "example_request =
     \<lparr>pr_organization = Some (S ''org''), pr_project = Some (S ''proj''),
      pr_pat_token = Some (S ''pat''), pr_variable_group_name = Some (S ''G''),
      pr_vg_description = Some [], pr_variables = Some [example_row]\<rparr>"

definition example_session :: session where
  "example_session = \<lparr>sess_variables = Some [example_row], sess_form_data = None\<rparr>"

text \<open>
  A service that resolves the project and answers the submission with the given status
  and decoded body.
\<close>

definition service :: "int \<Rightarrow> pystr + json \<Rightarrow> env" where
  "service status body =
     \<lparr>http_get = (\<lambda>url token.
          Inr \<lparr>status_code = 200, body_text = [],
               body_json = Inr (JObj [(S ''id'', JStr (S ''p1''))])\<rparr>),
      http_post = (\<lambda>url token payload.
          Inr \<lparr>status_code = status, body_text = [], body_json = body\<rparr>),
      container_repr = (\<lambda>j. [])\<rparr>"

text \<open>A service whose project lookup answers with the given status and body.\<close>

definition failing_lookup :: "int \<Rightarrow> pystr \<Rightarrow> pystr + json \<Rightarrow> env" where
  "failing_lookup status raw body =
     \<lparr>http_get = (\<lambda>url token.
          Inr \<lparr>status_code = status, body_text = raw, body_json = body\<rparr>),
      http_post = (\<lambda>url token payload.
          Inr \<lparr>status_code = 201, body_text = [], body_json = Inr (JObj [])\<rparr>),
      container_repr = (\<lambda>j. [])\<rparr>"

chapter \<open>Properties\<close>

section \<open>Flattening\<close>

lemma str_nat_nonempty: "str_nat n \<noteq> []"
  by (subst str_nat.simps) simp

lemma walk_path_leaves:
  "walk x pk out = fold (\<lambda>(k, v) d. dict_set k v d) (path_leaves x pk) out"
  "walk_items kvs pk out = fold (\<lambda>(k, v) d. dict_set k v d) (path_members kvs pk) out"
  "walk_elems xs i pk out = fold (\<lambda>(k, v) d. dict_set k v d) (path_elements xs i pk) out"
  by (induction x pk out and kvs pk out and xs i pk out rule: walk_walk_items_walk_elems.induct)
     (simp_all add: new_key_def)

lemma path_leaves_spec:
  "p \<noteq> [] \<Longrightarrow> path_leaves x p = spec_leaves x (Some p)"
  "p \<noteq> [] \<Longrightarrow> path_members kvs p = spec_members kvs (Some p)"
  "p \<noteq> [] \<Longrightarrow> path_elements xs i p = spec_elements xs i (Some p)"
  by (induction x p and kvs p and xs i p rule: path_leaves_path_members_path_elements.induct)
     simp_all

lemma path_members_top:
  "list_all (\<lambda>kv. fst kv \<noteq> []) kvs \<Longrightarrow> path_members kvs [] = spec_members kvs None"
  by (induction kvs) (auto simp: path_leaves_spec)

lemma path_elements_top: "path_elements xs i [] = spec_elements xs i None"
  by (induction xs arbitrary: i) (simp_all add: path_leaves_spec str_nat_nonempty)

lemma path_leaves_top: "top_names_nonempty x \<Longrightarrow> path_leaves x [] = spec_leaves x None"
  by (cases x) (simp_all add: path_members_top path_elements_top)

text \<open>
  Claim C8, as amended. For every JSON value and every parent path, \<^verbatim>\<open>flatten_json\<close> gives
  the mapping obtained by storing, in document order, one entry per scalar (null as the
  empty text, any other scalar as its \<^verbatim>\<open>str\<close>), where the path of a member or of an
  element at its zero-based decimal index is \<open>parent.child\<close> when the parent path is not
  empty and the child alone when it is. On a document whose top-level members all have a
  non-empty name this is the mapping of the specification, where the child stands alone at
  the root only. An empty object or an empty sequence leaves the mapping as it is, and the
  two examples of the specification evaluate as stated.
\<close>

theorem flatten_json_paths:
  "flatten_json x pk = dict_of (path_leaves x pk)
   \<and> (top_names_nonempty x \<longrightarrow> flatten_json x [] = flatten_spec x)
   \<and> walk (JObj []) pk out = out \<and> walk (JArr []) pk out = out
   \<and> flatten_json (JObj [(S ''a'', JObj [(S ''b'', JInt 1), (S ''c'', JArr [JInt 2, JInt 3])])]) []
       = [(S ''a.b'', S ''1''), (S ''a.c.0'', S ''2''), (S ''a.c.1'', S ''3'')]
   \<and> flatten_json (JObj []) [] = [] \<and> flatten_json (JArr []) [] = []"
proof -
  have general: "flatten_json x pk = dict_of (path_leaves x pk)"
    by (simp add: flatten_json_def dict_of_def walk_path_leaves)
  have top: "top_names_nonempty x \<longrightarrow> flatten_json x [] = flatten_spec x"
    by (simp add: flatten_json_def dict_of_def walk_path_leaves flatten_spec_def path_leaves_top)
  have example: "flatten_json (JObj [(S ''a'', JObj [(S ''b'', JInt 1), (S ''c'', JArr [JInt 2, JInt 3])])]) []
       = [(S ''a.b'', S ''1''), (S ''a.c.0'', S ''2''), (S ''a.c.1'', S ''3'')]"
    by (simp add: flatten_json_def new_key_def S_def str_int_def str_nat.simps)
  show ?thesis
    using general top example by (simp add: flatten_json_def)
qed

theorem flatten_json_paths_witness:
  "top_names_nonempty (JObj [(S ''a'', JArr [JNull, JBool True])])
   \<and> flatten_json (JObj [(S ''a'', JArr [JNull, JBool True])]) [] = [(S ''a.0'', []), (S ''a.1'', S ''True'')]
   \<and> flatten_spec (JObj [(S ''a'', JArr [JNull, JBool True])]) = [(S ''a.0'', []), (S ''a.1'', S ''True'')]"
  using flatten_json_paths [of "JObj [(S ''a'', JArr [JNull, JBool True])]" "[]"]
  by (simp add: flatten_spec_def dict_of_def S_def str_bool_def str_nat.simps)

text \<open>
  Claim C8 as stated fails below a top-level member with the empty name: the path of
  \<^verbatim>\<open>{"": {"b": 1}}\<close>'s scalar is \<^verbatim>\<open>b\<close> in the code, \<^verbatim>\<open>.b\<close> by the rule of the claim.
\<close>

theorem flatten_json_empty_name_counterexample:
  "flatten_json (JObj [([], JObj [(S ''b'', JInt 1)])]) [] = [(S ''b'', S ''1'')]
   \<and> flatten_spec (JObj [([], JObj [(S ''b'', JInt 1)])]) = [(S ''.b'', S ''1'')]
   \<and> flatten_json (JObj [([], JObj [(S ''b'', JInt 1)])]) [] \<noteq> flatten_spec (JObj [([], JObj [(S ''b'', JInt 1)])])"
  by (simp add: flatten_json_def flatten_spec_def dict_of_def new_key_def S_def str_int_def str_nat.simps)

section \<open>Secret classification\<close>

lemma split_on_nonempty: "split_on c s \<noteq> []"
  by (induction s) (auto split: list.splits)

lemma split_on_no_sep: "c \<notin> set s \<Longrightarrow> split_on c s = [s]"
  by (induction s) auto

lemma split_on_sep: "c \<in> set s \<Longrightarrow> \<exists>w ws. split_on c s = w # ws \<and> ws \<noteq> []"
  by (induction s) (auto simp: split_on_nonempty split: list.splits)

lemma last_segment_Cons:
  "last_segment c (x # xs) =
     (if c \<in> set xs then last_segment c xs else if x = c then xs else x # xs)"
proof (cases "c \<in> set xs")
  case True
  then have "takeWhile (\<lambda>y. y \<noteq> c) (rev xs @ [x]) = takeWhile (\<lambda>y. y \<noteq> c) (rev xs)"
    by (intro takeWhile_append1 [of c]) auto
  with True show ?thesis by (simp add: last_segment_def)
next
  case False
  then have "takeWhile (\<lambda>y. y \<noteq> c) (rev xs @ [x]) = rev xs @ takeWhile (\<lambda>y. y \<noteq> c) [x]"
    by (intro takeWhile_append2) auto
  with False show ?thesis by (simp add: last_segment_def)
qed

lemma last_split_on: "last (split_on c s) = last_segment c s"
proof (induction s)
  case Nil
  show ?case by (simp add: last_segment_def)
next
  case (Cons x xs)
  show ?case
  proof (cases "c \<in> set xs")
    case True
    then obtain w ws where "split_on c xs = w # ws" "ws \<noteq> []"
      using split_on_sep by blast
    with True Cons show ?thesis by (simp add: last_segment_Cons)
  next
    case False
    then show ?thesis by (simp add: last_segment_Cons split_on_no_sep)
  qed
qed

lemma last_segment_Nil: "last_segment c [] = []"
  by (simp add: last_segment_def)

lemma last_segment_snoc:
  "last_segment c (s @ [x]) = (if x = c then [] else last_segment c s @ [x])"
  by (simp add: last_segment_def)

lemma match_lit_iff:
  "match_lit t s = Some r \<longleftrightarrow> (\<exists>u. s = u @ r \<and> list_all2 ci_match t u)"
proof (induction t s rule: match_lit.induct)
  case (1 s)
  show ?case by auto
next
  case (2 p ps)
  show ?case by (auto simp: list_all2_Cons1)
next
  case (3 p ps c cs)
  show ?case
  proof (cases "ci_match p c")
    case True
    with 3 show ?thesis by (auto simp: list_all2_Cons1)
  next
    case False
    then show ?thesis by (auto simp: list_all2_Cons1)
  qed
qed

lemma ci_ends_with_iff:
  "ci_ends_with s t \<longleftrightarrow> (\<exists>pre u. s = pre @ u \<and> list_all2 ci_match t u)"
proof
  assume h: "ci_ends_with s t"
  then have "s = take (length s - length t) s @ drop (length s - length t) s" by simp
  with h show "\<exists>pre u. s = pre @ u \<and> list_all2 ci_match t u"
    unfolding ci_ends_with_def by blast
next
  assume "\<exists>pre u. s = pre @ u \<and> list_all2 ci_match t u"
  then obtain pre u where s: "s = pre @ u" and m: "list_all2 ci_match t u" by blast
  from m have "length t = length u" by (rule list_all2_lengthD)
  with s m show "ci_ends_with s t" by (simp add: ci_ends_with_def)
qed

lemma pattern_at_iff:
  "pattern_at s \<longleftrightarrow>
     (\<exists>t \<in> set SECRET_TOKENS. \<exists>u. (s = u \<or> s = u @ [10]) \<and> list_all2 ci_match t u)"
proof -
  have "(case match_lit t s of Some rest \<Rightarrow> at_dollar rest | None \<Rightarrow> False)
        \<longleftrightarrow> (\<exists>u. (s = u \<or> s = u @ [10]) \<and> list_all2 ci_match t u)" for t
  proof (cases "match_lit t s")
    case None
    then have "\<not> (\<exists>r u. s = u @ r \<and> list_all2 ci_match t u)"
      using match_lit_iff [of t s] by auto
    then have "\<not> (\<exists>u. (s = u \<or> s = u @ [10]) \<and> list_all2 ci_match t u)"
      by (metis append_Nil2)
    with None show ?thesis by simp
  next
    case (Some r)
    then obtain u where u: "s = u @ r" "list_all2 ci_match t u"
      using match_lit_iff [of t s r] by auto
    have uniq: "u' = u \<and> r' = r" if "s = u' @ r'" "list_all2 ci_match t u'" for u' r'
    proof -
      have "length u' = length u"
        using that(2) u(2) by (metis list_all2_lengthD)
      with that(1) u(1) show ?thesis by (metis append_eq_append_conv)
    qed
    show ?thesis
    proof
      assume "case match_lit t s of Some rest \<Rightarrow> at_dollar rest | None \<Rightarrow> False"
      with Some have "r = [] \<or> r = [10]" by (simp add: at_dollar_def)
      with u show "\<exists>u. (s = u \<or> s = u @ [10]) \<and> list_all2 ci_match t u" by auto
    next
      assume "\<exists>u. (s = u \<or> s = u @ [10]) \<and> list_all2 ci_match t u"
      then obtain u' where "s = u' @ [] \<or> s = u' @ [10]" "list_all2 ci_match t u'" by auto
      with uniq have "r = [] \<or> r = [10]" by blast
      with Some show "case match_lit t s of Some rest \<Rightarrow> at_dollar rest | None \<Rightarrow> False"
        by (simp add: at_dollar_def)
    qed
  qed
  then show ?thesis by (simp add: pattern_at_def list_ex_iff)
qed

lemma re_search_iff: "re_search s \<longleftrightarrow> (\<exists>pre post. s = pre @ post \<and> pattern_at post)"
proof (induction s)
  case Nil
  show ?case by simp
next
  case (Cons c cs)
  show ?case
  proof
    assume "re_search (c # cs)"
    then consider "pattern_at (c # cs)" | "re_search cs" by auto
    then show "\<exists>pre post. c # cs = pre @ post \<and> pattern_at post"
    proof cases
      case 1
      then show ?thesis by (metis append_Nil)
    next
      case 2
      with Cons obtain pre post where "cs = pre @ post" "pattern_at post" by blast
      then show ?thesis by (metis append_Cons)
    qed
  next
    assume "\<exists>pre post. c # cs = pre @ post \<and> pattern_at post"
    then obtain pre post where h: "c # cs = pre @ post" "pattern_at post" by blast
    show "re_search (c # cs)"
    proof (cases pre)
      case Nil
      with h have "pattern_at (c # cs)" by simp
      then show ?thesis by simp
    next
      case (Cons a pre')
      with h have "cs = pre' @ post" by simp
      with h(2) Cons.IH show ?thesis by auto
    qed
  qed
qed

lemma re_search_ends:
  "re_search s \<longleftrightarrow>
     (list_ex (ci_ends_with s) SECRET_TOKENS
      \<or> (s \<noteq> [] \<and> last s = 10 \<and> list_ex (ci_ends_with (butlast s)) SECRET_TOKENS))"
proof -
  have "re_search s \<longleftrightarrow>
      (\<exists>t \<in> set SECRET_TOKENS. \<exists>pre u. (s = pre @ u \<or> s = (pre @ u) @ [10]) \<and> list_all2 ci_match t u)"
    unfolding re_search_iff pattern_at_iff by (metis append_assoc)
  also have "\<dots> \<longleftrightarrow> (\<exists>t \<in> set SECRET_TOKENS.
      ci_ends_with s t \<or> (s \<noteq> [] \<and> last s = 10 \<and> ci_ends_with (butlast s) t))"
  proof -
    have "(\<exists>pre u. (s = pre @ u \<or> s = (pre @ u) @ [10]) \<and> list_all2 ci_match t u)
         \<longleftrightarrow> (ci_ends_with s t \<or> (s \<noteq> [] \<and> last s = 10 \<and> ci_ends_with (butlast s) t))" for t
    proof
      assume "\<exists>pre u. (s = pre @ u \<or> s = (pre @ u) @ [10]) \<and> list_all2 ci_match t u"
      then obtain pre u where m: "list_all2 ci_match t u"
        and d: "s = pre @ u \<or> s = (pre @ u) @ [10]" by blast
      from d show "ci_ends_with s t \<or> (s \<noteq> [] \<and> last s = 10 \<and> ci_ends_with (butlast s) t)"
      proof
        assume "s = pre @ u"
        with m show ?thesis unfolding ci_ends_with_iff by blast
      next
        assume s: "s = (pre @ u) @ [10]"
        then have "butlast s = pre @ u" "last s = 10" "s \<noteq> []"
          by (simp_all add: butlast_append)
        with m show ?thesis unfolding ci_ends_with_iff by blast
      qed
    next
      assume "ci_ends_with s t \<or> (s \<noteq> [] \<and> last s = 10 \<and> ci_ends_with (butlast s) t)"
      then show "\<exists>pre u. (s = pre @ u \<or> s = (pre @ u) @ [10]) \<and> list_all2 ci_match t u"
      proof
        assume "ci_ends_with s t"
        then show ?thesis unfolding ci_ends_with_iff by blast
      next
        assume h: "s \<noteq> [] \<and> last s = 10 \<and> ci_ends_with (butlast s) t"
        then obtain pre u where b: "butlast s = pre @ u" and m: "list_all2 ci_match t u"
          unfolding ci_ends_with_iff by blast
        from h have "s = butlast s @ [10]" by (metis append_butlast_last_id)
        with b m show ?thesis by metis
      qed
    qed
    then show ?thesis by simp
  qed
  finally show ?thesis by (auto simp: list_ex_iff)
qed

lemma final_segment_newline:
  "(let g = last_segment 0x5F (last_segment 0x2E k) in g \<noteq> [] \<and> last g = 10 \<and> P (butlast g))
   \<longleftrightarrow> (k \<noteq> [] \<and> last k = 10 \<and> P (last_segment 0x5F (last_segment 0x2E (butlast k))))"
proof (cases k rule: rev_cases)
  case Nil
  then show ?thesis by (simp add: last_segment_def)
next
  case (snoc k' x)
  then show ?thesis by (auto simp: last_segment_snoc last_segment_Nil Let_def)
qed

text \<open>
  What the classifier computes: the suffix test of the specification on the key as it
  stands, or on the key without its last character when that character is a newline.
\<close>

lemma is_secret_key_computes:
  "is_secret_key k =
     (is_secret_spec k \<or> (k \<noteq> [] \<and> last k = 10 \<and> is_secret_spec (butlast k)))"
  using final_segment_newline [of k "\<lambda>g. list_ex (ci_ends_with g) SECRET_TOKENS"]
  by (simp add: is_secret_key_def is_secret_spec_def last_split_on re_search_ends Let_def)

text \<open>
  On every key that does not end in a newline the classifier is the suffix test, and the
  two examples of the specification evaluate as stated.
\<close>

lemma is_secret_key_without_newline:
  "k = [] \<or> last k \<noteq> 10 \<Longrightarrow> is_secret_key k = is_secret_spec k"
  using is_secret_key_computes [of k] by auto

lemma is_secret_key_examples:
  "is_secret_key (S ''db.connectionString'')" "\<not> is_secret_key (S ''user.name'')"
  by (simp_all add: is_secret_key_def S_def pattern_at_def SECRET_TOKENS_def ci_match_def
      at_dollar_def)

text \<open>
  Claim C9. The classifier is to hold exactly when the last underscore-separated segment of
  the last dot-separated segment ends, without regard to case, with one of the ten tokens.
  The code departs from this on a key that ends with a newline: \<^verbatim>\<open>$\<close> also matches
  just before a final newline, so \<^verbatim>\<open>key\<close> followed by a newline is classified secret
  although its final segment does not end with a token.
\<close>

theorem is_secret_key_trailing_newline:
  "is_secret_key (S ''key'' @ [10]) \<and> \<not> is_secret_spec (S ''key'' @ [10])"
  by (simp add: is_secret_key_def is_secret_spec_def last_segment_def ci_ends_with_def S_def
      pattern_at_def SECRET_TOKENS_def ci_match_def at_dollar_def)

section \<open>Merging an import into the variable set\<close>

subsection \<open>Dictionary updates\<close>

lemma dict_set_map_fst:
  "map fst (dict_set k v d) = (if k \<in> set (map fst d) then map fst d else map fst d @ [k])"
  by (induction d) (auto simp del: set_map)

lemma dict_set_keys: "set (map fst (dict_set k v d)) = insert k (set (map fst d))"
  by (simp add: dict_set_map_fst del: set_map) auto

lemma dict_set_absent: "k \<notin> set (map fst d) \<Longrightarrow> dict_set k v d = d @ [(k, v)]"
  by (induction d) (auto simp del: set_map)

lemma dict_set_distinct: "distinct (map fst d) \<Longrightarrow> distinct (map fst (dict_set k v d))"
  by (simp add: dict_set_map_fst del: set_map)

lemma map_of_dict_set: "map_of (dict_set k v d) k' = (if k' = k then Some v else map_of d k')"
  by (induction d) auto

lemma dict_set_same: "map_of d k = Some v \<Longrightarrow> dict_set k v d = d"
  by (induction d) (auto split: if_splits)

lemma dict_set_twice: "dict_set k v (dict_set k v' d) = dict_set k v d"
  by (induction d) auto

lemma dict_set_commute:
  "k \<noteq> k' \<Longrightarrow> k \<in> set (map fst d) \<Longrightarrow>
     dict_set k v (dict_set k' v' d) = dict_set k' v' (dict_set k v d)"
  by (induction d) (auto simp del: set_map)

lemma map_unchanged: "k \<notin> set (map fst d) \<Longrightarrow>
    map (\<lambda>(k', v'). if k' = k then (k', v) else (k', v')) d = d"
  by (induction d) (auto simp del: set_map)

lemma dict_set_present:
  "distinct (map fst d) \<Longrightarrow> k \<in> set (map fst d) \<Longrightarrow>
     dict_set k v d = map (\<lambda>(k', v'). if k' = k then (k', v) else (k', v')) d"
proof (induction d)
  case Nil
  then show ?case by simp
next
  case (Cons a d)
  obtain k' v' where a: "a = (k', v')" by (cases a)
  show ?case
  proof (cases "k' = k")
    case True
    with Cons.prems a have "k \<notin> set (map fst d)" by simp
    then show ?thesis using True a by (simp add: map_unchanged del: set_map)
  next
    case False
    with Cons.prems a have "distinct (map fst d)" "k \<in> set (map fst d)" by auto
    with Cons.IH False a show ?thesis by simp
  qed
qed

subsection \<open>The overlay of an imported mapping\<close>

lemma overlay_Nil: "overlay [] d = d"
  by (simp add: overlay_def)

lemma overlay_Cons: "overlay ((k, v) # m) d = overlay m (dict_set k (imported_row k v) d)"
  by (simp add: overlay_def)

lemma overlay_keys: "set (map fst (overlay m d)) = set (map fst d) \<union> set (map fst m)"
proof (induction m arbitrary: d)
  case Nil
  show ?case by (simp add: overlay_Nil)
next
  case (Cons a m)
  obtain k v where a: "a = (k, v)" by (cases a)
  show ?case unfolding a overlay_Cons Cons.IH dict_set_keys by auto
qed

lemma overlay_distinct: "distinct (map fst d) \<Longrightarrow> distinct (map fst (overlay m d))"
proof (induction m arbitrary: d)
  case Nil
  then show ?case by (simp add: overlay_Nil)
next
  case (Cons a m)
  obtain k v where a: "a = (k, v)" by (cases a)
  show ?case unfolding a overlay_Cons by (rule Cons.IH) (rule dict_set_distinct [OF Cons.prems])
qed

lemma map_of_overlay_other:
  "k \<notin> set (map fst m) \<Longrightarrow> map_of (overlay m d) k = map_of d k"
proof (induction m arbitrary: d)
  case Nil
  show ?case by (simp add: overlay_Nil)
next
  case (Cons a m)
  obtain k' v where a: "a = (k', v)" by (cases a)
  from Cons.prems a have "k \<noteq> k'" "k \<notin> set (map fst m)" by auto
  then show ?case unfolding a overlay_Cons by (simp add: Cons.IH map_of_dict_set del: set_map)
qed

lemma overlay_absorb:
  "k \<in> set (map fst m) \<Longrightarrow> k \<in> set (map fst d) \<Longrightarrow>
     overlay m (dict_set k w d) = overlay m d"
proof (induction m arbitrary: d)
  case Nil
  then show ?case by simp
next
  case (Cons a m)
  obtain k' v where a: "a = (k', v)" by (cases a)
  show ?case
  proof (cases "k' = k")
    case True
    then show ?thesis unfolding a overlay_Cons by (simp add: dict_set_twice)
  next
    case False
    with Cons.prems a have km: "k \<in> set (map fst m)" by auto
    have kd: "k \<in> set (map fst (dict_set k' (imported_row k' v) d))"
      using Cons.prems(2) unfolding dict_set_keys by simp
    have "dict_set k' (imported_row k' v) (dict_set k w d)
          = dict_set k w (dict_set k' (imported_row k' v) d)"
      using False Cons.prems(2) dict_set_commute [of k k' d w "imported_row k' v"] by simp
    then show ?thesis unfolding a overlay_Cons by (simp add: Cons.IH [OF km kd])
  qed
qed

lemma overlay_idem: "overlay m (overlay m d) = overlay m d"
proof (induction m arbitrary: d)
  case Nil
  show ?case by (simp add: overlay_Nil)
next
  case (Cons a m)
  obtain k v where a: "a = (k, v)" by (cases a)
  define d1 where "d1 = dict_set k (imported_row k v) d"
  have kd1: "k \<in> set (map fst d1)" unfolding d1_def dict_set_keys by simp
  then have kx: "k \<in> set (map fst (overlay m d1))" unfolding overlay_keys by simp
  have "overlay m (dict_set k (imported_row k v) (overlay m d1)) = overlay m (overlay m d1)"
  proof (cases "k \<in> set (map fst m)")
    case True
    then show ?thesis using kx by (rule overlay_absorb)
  next
    case False
    then have "map_of (overlay m d1) k = map_of d1 k" by (rule map_of_overlay_other)
    also have "\<dots> = Some (imported_row k v)" by (simp add: d1_def map_of_dict_set)
    finally show ?thesis by (simp add: dict_set_same)
  qed
  then show ?case unfolding a overlay_Cons d1_def [symmetric] by (simp add: Cons.IH)
qed

lemma overlay_distinct_char:
  "distinct (map fst m) \<Longrightarrow> distinct (map fst d) \<Longrightarrow>
   overlay m d =
     map (\<lambda>(k, r). (k, case map_of m k of None \<Rightarrow> r | Some v \<Rightarrow> imported_row k v)) d
     @ map (\<lambda>(k, v). (k, imported_row k v)) (filter (\<lambda>(k, v). k \<notin> set (map fst d)) m)"
  (is "_ \<Longrightarrow> _ \<Longrightarrow> overlay m d = map (?F m) d @ map ?G (?N d m)")
proof (induction m arbitrary: d)
  case Nil
  show ?case by (simp add: overlay_Nil)
next
  case (Cons a m)
  obtain k v where a: "a = (k, v)" by (cases a)
  from Cons.prems(1) a have km: "k \<notin> set (map fst m)" and dm: "distinct (map fst m)" by auto
  from km have none: "map_of m k = None" by (simp add: map_of_eq_None_iff)
  define d' where "d' = dict_set k (imported_row k v) d"
  have dd': "distinct (map fst d')" unfolding d'_def by (rule dict_set_distinct [OF Cons.prems(2)])
  have flt: "?N d' m = ?N d m"
  proof (rule filter_cong [OF refl])
    fix x assume "x \<in> set m"
    with km have "fst x \<noteq> k" by (metis image_eqI set_map)
    then show "(case x of (k', v') \<Rightarrow> k' \<notin> set (map fst d'))
             = (case x of (k', v') \<Rightarrow> k' \<notin> set (map fst d))"
      unfolding d'_def dict_set_keys by (cases x) auto
  qed
  have step: "overlay (a # m) d = overlay m d'"
    by (simp add: a overlay_Cons d'_def)
  have ih: "overlay m d' = map (?F m) d' @ map ?G (?N d m)"
    using Cons.IH [OF dm dd'] by (simp only: flt)
  show ?case
  proof (cases "k \<in> set (map fst d)")
    case True
    then have d'_eq: "d' = map (\<lambda>(k', v'). if k' = k then (k', imported_row k v) else (k', v')) d"
      unfolding d'_def using Cons.prems(2) by (simp add: dict_set_present del: set_map)
    have 1: "map (?F m) d' = map (?F ((k, v) # m)) d"
      unfolding d'_eq using none by (auto simp: map_idI split: option.splits)
    have 2: "?N d ((k, v) # m) = ?N d m"
      using True by (simp del: set_map)
    have "overlay (a # m) d = map (?F m) d' @ map ?G (?N d m)"
      by (simp only: step ih)
    also have "\<dots> = map (?F ((k, v) # m)) d @ map ?G (?N d ((k, v) # m))"
      by (simp only: 1 2)
    finally show ?thesis by (simp only: a)
  next
    case False
    then have d'_eq: "d' = d @ [(k, imported_row k v)]"
      unfolding d'_def by (rule dict_set_absent)
    have 1: "map (?F ((k, v) # m)) d = map (?F m) d"
    proof (rule map_cong [OF refl])
      fix x assume "x \<in> set d"
      with False have "fst x \<noteq> k" by (metis image_eqI set_map)
      then show "?F ((k, v) # m) x = ?F m x"
        by (cases x) auto
    qed
    have 2: "map (?F m) d' = map (?F m) d @ [(k, imported_row k v)]"
      using none by (simp add: d'_eq)
    have 3: "map ?G (?N d ((k, v) # m)) = (k, imported_row k v) # map ?G (?N d m)"
      using False by (simp del: set_map)
    have "overlay (a # m) d = map (?F m) d' @ map ?G (?N d m)"
      by (simp only: step ih)
    also have "\<dots> = map (?F m) d @ (k, imported_row k v) # map ?G (?N d m)"
      by (simp only: 2 append_assoc append_Cons append_Nil)
    also have "\<dots> = map (?F ((k, v) # m)) d @ map ?G (?N d ((k, v) # m))"
      by (simp only: 1 3)
    finally show ?thesis by (simp only: a)
  qed
qed

subsection \<open>The index of the existing rows\<close>

lemma keyed_dict_set: "keyed d \<Longrightarrow> row_key r = Some k \<Longrightarrow> keyed (dict_set k r d)"
  by (induction d) (auto simp: keyed_def)

lemma keyed_overlay: "keyed d \<Longrightarrow> keyed (overlay m d)"
proof (induction m arbitrary: d)
  case Nil
  then show ?case by (simp add: overlay_Nil)
next
  case (Cons a m)
  obtain k v where a: "a = (k, v)" by (cases a)
  have "keyed (dict_set k (imported_row k v) d)"
    using Cons.prems by (rule keyed_dict_set) (simp add: imported_row_def)
  then show ?case unfolding a overlay_Cons by (rule Cons.IH)
qed

lemma index_by_key_inv:
  "index_by_key rows d = Inr cv \<Longrightarrow> keyed d \<Longrightarrow> distinct (map fst d) \<Longrightarrow>
     keyed cv \<and> distinct (map fst cv)"
proof (induction rows arbitrary: d)
  case Nil
  then show ?case by simp
next
  case (Cons var vars)
  from Cons.prems(1) obtain k where k: "row_key var = Some k"
    and rest: "index_by_key vars (dict_set k var d) = Inr cv"
    by (auto split: option.splits)
  show ?case
    by (rule Cons.IH [OF rest keyed_dict_set [OF Cons.prems(2) k]
          dict_set_distinct [OF Cons.prems(3)]])
qed

lemma index_rebuild:
  "keyed d2 \<Longrightarrow> distinct (map fst (d1 @ d2)) \<Longrightarrow> index_by_key (map snd d2) d1 = Inr (d1 @ d2)"
proof (induction d2 arbitrary: d1)
  case Nil
  show ?case by simp
next
  case (Cons a d2)
  obtain k r where a: "a = (k, r)" by (cases a)
  from Cons.prems(1) a have kr: "row_key r = Some k" and kd2: "keyed d2"
    by (simp_all add: keyed_def)
  from Cons.prems(2) a have "k \<notin> set (map fst d1)" by auto
  then have set_eq: "dict_set k r d1 = d1 @ [(k, r)]" by (rule dict_set_absent)
  from Cons.prems(2) a have "distinct (map fst ((d1 @ [(k, r)]) @ d2))" by simp
  from Cons.IH [OF kd2 this] show ?case using a kr set_eq by simp
qed

lemma keyed_row_keys: "keyed d \<Longrightarrow> map row_key (map snd d) = map (\<lambda>p. Some (fst p)) d"
  by (induction d) (auto simp: keyed_def)

lemma keyed_keys_unique: "keyed d \<Longrightarrow> distinct (map fst d) \<Longrightarrow> keys_unique (map snd d)"
proof -
  assume k: "keyed d" and d: "distinct (map fst d)"
  have "distinct (map (\<lambda>p. Some (fst p)) d)"
    using d by (auto simp: distinct_map inj_on_def)
  then show ?thesis unfolding keys_unique_def keyed_row_keys [OF k] .
qed

lemma merge_vars_unique: "merge_vars existing incoming = Inr rows \<Longrightarrow> keys_unique rows"
proof -
  assume "merge_vars existing incoming = Inr rows"
  then obtain cv where cv: "index_by_key existing [] = Inr cv"
    and rows: "rows = map snd (overlay incoming cv)"
    by (auto simp: merge_vars_def split: sum.splits)
  from index_by_key_inv [OF cv] have "keyed cv" "distinct (map fst cv)"
    by (simp_all add: keyed_def)
  then show ?thesis unfolding rows
    by (intro keyed_keys_unique keyed_overlay overlay_distinct)
qed

text \<open>
  Claim C3. The import-merge is idempotent: when merging an incoming mapping into a variable
  set yields a variable set, merging the same mapping into that result yields the result
  again, with the same records, values, flags and order.
\<close>

theorem merge_vars_idempotent:
  "merge_vars existing incoming = Inr merged \<Longrightarrow> merge_vars merged incoming = Inr merged"
proof -
  assume "merge_vars existing incoming = Inr merged"
  then obtain cv where cv: "index_by_key existing [] = Inr cv"
    and merged: "merged = map snd (overlay incoming cv)"
    by (auto simp: merge_vars_def split: sum.splits)
  from index_by_key_inv [OF cv] have "keyed cv" "distinct (map fst cv)"
    by (simp_all add: keyed_def)
  then have "keyed (overlay incoming cv)" "distinct (map fst ([] @ overlay incoming cv))"
    by (simp_all add: keyed_overlay overlay_distinct)
  then have "index_by_key merged [] = Inr (overlay incoming cv)"
    unfolding merged using index_rebuild [of "overlay incoming cv" "[]"] by simp
  then show ?thesis by (simp add: merge_vars_def overlay_idem merged)
qed


subsection \<open>The merge on a variable set\<close>

lemma index_by_key_unique:
  assumes present: "list_all (\<lambda>r. row_key r \<noteq> None) existing"
    and unique: "keys_unique existing"
  shows "index_by_key existing [] = Inr (map (\<lambda>r. (the (row_key r), r)) existing)"
proof -
  let ?d = "map (\<lambda>r. (the (row_key r), r)) existing"
  have k: "keyed ?d"
    using present by (induction existing) (auto simp: keyed_def)
  have "inj_on the (set (map row_key existing))"
  proof (rule inj_onI)
    fix x y
    assume x: "x \<in> set (map row_key existing)" and y: "y \<in> set (map row_key existing)"
      and e: "the x = the y"
    from present x y have "x \<noteq> None" "y \<noteq> None" by (auto simp: list_all_iff)
    with e show "x = y" by (cases x; cases y) auto
  qed
  with unique have "distinct (map the (map row_key existing))"
    unfolding keys_unique_def by (simp only: distinct_map)
  then have d: "distinct (map fst ([] @ ?d))" by (simp add: comp_def)
  have "map snd ?d = existing" by (simp add: comp_def)
  with index_rebuild [OF k d] show ?thesis by simp
qed

lemma merge_overwrite_char:
  assumes present: "list_all (\<lambda>r. row_key r \<noteq> None) existing"
  shows "map snd
     (map (\<lambda>(k, r). (k, case map_of m k of None \<Rightarrow> r | Some v \<Rightarrow> imported_row k v))
        (map (\<lambda>r. (the (row_key r), r)) existing)
      @ map (\<lambda>(k, v). (k, imported_row k v))
          (filter (\<lambda>(k, v). k \<notin> set (map fst (map (\<lambda>r. (the (row_key r), r)) existing))) m))
    = merge_overwrite existing m"
proof -
  have 1: "map snd (map (\<lambda>(k, r). (k, case map_of m k of None \<Rightarrow> r | Some v \<Rightarrow> imported_row k v))
        (map (\<lambda>r. (the (row_key r), r)) existing))
     = map (\<lambda>r. case row_key r of None \<Rightarrow> r
            | Some k \<Rightarrow> (case map_of m k of None \<Rightarrow> r | Some v \<Rightarrow> imported_row k v)) existing"
    using present by (induction existing) (auto split: option.splits)
  have keys: "(k \<notin> set (map fst (map (\<lambda>r. (the (row_key r), r)) existing)))
      = (Some k \<notin> set (map row_key existing))" for k
    using present by (induction existing) auto
  have 2: "map snd (map (\<lambda>(k, v). (k, imported_row k v))
          (filter (\<lambda>(k, v). k \<notin> set (map fst (map (\<lambda>r. (the (row_key r), r)) existing))) m))
     = map (\<lambda>(k, v). imported_row k v)
         (filter (\<lambda>(k, v). Some k \<notin> set (map row_key existing)) m)"
    unfolding keys by (induction m) auto
  show ?thesis unfolding merge_overwrite_def map_append 1 2 ..
qed

text \<open>
  Claim C1, as amended. For every existing variable set (every record has a key, no two
  records share one) and every incoming mapping, the import-merge puts, at the position of
  each record whose key occurs in the mapping, the record with that key, the incoming value
  and the secret flag off; it leaves the other records as they are; and it appends, in the
  order of the mapping, a record with the flag off for each incoming key that is not
  present. Merging \<^verbatim>\<open>{"k": "2"}\<close> into the one secret record \<^verbatim>\<open>k = 1\<close> yields the one
  record \<^verbatim>\<open>k = 2\<close> with the flag off.
\<close>

theorem merge_vars_overwrites:
  assumes "list_all (\<lambda>r. row_key r \<noteq> None) existing"
    and "keys_unique existing"
    and "distinct (map fst incoming)"
  shows "merge_vars existing incoming = Inr (merge_overwrite existing incoming)
    \<and> merge_vars [\<lparr>row_key = Some (S ''k''), row_value = Some (S ''1''), row_isSecret = Some True\<rparr>]
          [(S ''k'', S ''2'')]
        = Inr [\<lparr>row_key = Some (S ''k''), row_value = Some (S ''2''), row_isSecret = Some False\<rparr>]"
proof -
  let ?d = "map (\<lambda>r. (the (row_key r), r)) existing"
  have idx: "index_by_key existing [] = Inr ?d"
    using assms(1,2) by (rule index_by_key_unique)
  from index_by_key_inv [OF idx] have dd: "distinct (map fst ?d)"
    by (simp add: keyed_def)
  have "merge_vars existing incoming = Inr (map snd (overlay incoming ?d))"
    by (simp add: merge_vars_def idx)
  also have "\<dots> = Inr (merge_overwrite existing incoming)"
    by (simp only: overlay_distinct_char [OF assms(3) dd] merge_overwrite_char [OF assms(1)])
  finally have general: "merge_vars existing incoming = Inr (merge_overwrite existing incoming)" .
  have example: "merge_vars [\<lparr>row_key = Some (S ''k''), row_value = Some (S ''1''), row_isSecret = Some True\<rparr>]
          [(S ''k'', S ''2'')]
        = Inr [\<lparr>row_key = Some (S ''k''), row_value = Some (S ''2''), row_isSecret = Some False\<rparr>]"
    by (simp add: merge_vars_def overlay_def imported_row_def)
  from general example show ?thesis by simp
qed

theorem merge_vars_overwrites_witness:
  "merge_vars
     [\<lparr>row_key = Some (S ''a''), row_value = Some (S ''1''), row_isSecret = Some True\<rparr>,
      \<lparr>row_key = Some (S ''b''), row_value = Some (S ''x''), row_isSecret = Some True\<rparr>]
     [(S ''c'', S ''3''), (S ''a'', S ''2'')]
   = Inr [\<lparr>row_key = Some (S ''a''), row_value = Some (S ''2''), row_isSecret = Some False\<rparr>,
          \<lparr>row_key = Some (S ''b''), row_value = Some (S ''x''), row_isSecret = Some True\<rparr>,
          \<lparr>row_key = Some (S ''c''), row_value = Some (S ''3''), row_isSecret = Some False\<rparr>]"
proof -
  let ?ex = "[\<lparr>row_key = Some (S ''a''), row_value = Some (S ''1''), row_isSecret = Some True\<rparr>,
      \<lparr>row_key = Some (S ''b''), row_value = Some (S ''x''), row_isSecret = Some True\<rparr>]"
  let ?inc = "[(S ''c'', S ''3''), (S ''a'', S ''2'')]"
  have 1: "list_all (\<lambda>r. row_key r \<noteq> None) ?ex" by simp
  have 2: "keys_unique ?ex" by (simp add: keys_unique_def S_def)
  have 3: "distinct (map fst ?inc)" by (simp add: S_def)
  from merge_vars_overwrites [OF 1 2 3] show ?thesis
    by (simp add: merge_overwrite_def imported_row_def S_def)
qed

text \<open>
  Claim C1 as stated fails on its own example: the merge does not keep the secret flag of
  a record whose key is imported again.
\<close>

theorem merge_vars_flag_counterexample:
  "merge_spec [\<lparr>row_key = Some (S ''k''), row_value = Some (S ''1''), row_isSecret = Some True\<rparr>]
     [(S ''k'', S ''2'')]
   = [\<lparr>row_key = Some (S ''k''), row_value = Some (S ''2''), row_isSecret = Some True\<rparr>]
   \<and> merge_vars [\<lparr>row_key = Some (S ''k''), row_value = Some (S ''1''), row_isSecret = Some True\<rparr>]
       [(S ''k'', S ''2'')]
     \<noteq> Inr [\<lparr>row_key = Some (S ''k''), row_value = Some (S ''2''), row_isSecret = Some True\<rparr>]"
  by (simp add: merge_spec_def merge_vars_def overlay_def imported_row_def)

theorem merge_vars_idempotent_witness:
  "merge_vars
     [\<lparr>row_key = Some (S ''a''), row_value = Some (S ''1''), row_isSecret = Some True\<rparr>]
     [(S ''a'', S ''2''), (S ''b'', S ''3'')]
   = Inr [\<lparr>row_key = Some (S ''a''), row_value = Some (S ''2''), row_isSecret = Some False\<rparr>,
          \<lparr>row_key = Some (S ''b''), row_value = Some (S ''3''), row_isSecret = Some False\<rparr>]
   \<and> merge_vars
     [\<lparr>row_key = Some (S ''a''), row_value = Some (S ''2''), row_isSecret = Some False\<rparr>,
      \<lparr>row_key = Some (S ''b''), row_value = Some (S ''3''), row_isSecret = Some False\<rparr>]
     [(S ''a'', S ''2''), (S ''b'', S ''3'')]
   = Inr [\<lparr>row_key = Some (S ''a''), row_value = Some (S ''2''), row_isSecret = Some False\<rparr>,
          \<lparr>row_key = Some (S ''b''), row_value = Some (S ''3''), row_isSecret = Some False\<rparr>]"
proof -
  have h: "merge_vars
     [\<lparr>row_key = Some (S ''a''), row_value = Some (S ''1''), row_isSecret = Some True\<rparr>]
     [(S ''a'', S ''2''), (S ''b'', S ''3'')]
   = Inr [\<lparr>row_key = Some (S ''a''), row_value = Some (S ''2''), row_isSecret = Some False\<rparr>,
          \<lparr>row_key = Some (S ''b''), row_value = Some (S ''3''), row_isSecret = Some False\<rparr>]"
    by (simp add: merge_vars_def overlay_def imported_row_def S_def)
  from merge_vars_idempotent [OF h] h show ?thesis by simp
qed

section \<open>The legacy configuration parser\<close>

text \<open>
  Claim C10. The legacy parser treats an empty attribute value differently on the two
  sides. An \<^verbatim>\<open>add\<close> element whose \<^verbatim>\<open>key\<close> (in \<^verbatim>\<open>connectionStrings\<close>: \<^verbatim>\<open>name\<close>)
  attribute is present and empty emits no entry, whatever its value attribute is. An
  \<^verbatim>\<open>add\<close> element with a non-empty key whose \<^verbatim>\<open>value\<close> (\<^verbatim>\<open>connectionString\<close>)
  attribute is present and empty emits an entry whose value is the empty text. So a
  document with the single setting \<^verbatim>\<open>key="" value="v"\<close> parses to the empty mapping and
  one with \<^verbatim>\<open>key="k" value=""\<close> to the mapping of \<^verbatim>\<open>k\<close> to the empty text.
\<close>

theorem parse_web_config_empty_attributes:
  "(attrib_get add (S ''key'') = Some [] \<longrightarrow>
      app_settings_loop sp (add # adds) out = app_settings_loop sp adds out)
   \<and> (attrib_get add (S ''key'') = Some k \<and> k \<noteq> [] \<and> attrib_get add (S ''value'') = Some [] \<longrightarrow>
      app_settings_loop sp (add # adds) out
        = app_settings_loop sp adds (dict_set (if sp then S ''appSettings.'' @ k else k) [] out))
   \<and> (attrib_get add (S ''name'') = Some [] \<longrightarrow>
      conns_loop sp (add # adds) out = conns_loop sp adds out)
   \<and> (attrib_get add (S ''name'') = Some k \<and> k \<noteq> []
        \<and> attrib_get add (S ''connectionString'') = Some [] \<longrightarrow>
      conns_loop sp (add # adds) out
        = conns_loop sp adds (dict_set (if sp then S ''connectionStrings.'' @ k else k) [] out))
   \<and> parse_web_config
        (Element (S ''configuration'') []
           [Element (S ''appSettings'') []
              [Element (S ''add'') [(S ''key'', []), (S ''value'', S ''v'')] []]]) False = []
   \<and> parse_web_config
        (Element (S ''configuration'') []
           [Element (S ''appSettings'') []
              [Element (S ''add'') [(S ''key'', S ''k''), (S ''value'', [])] []]]) False
       = [(S ''k'', [])]
   \<and> parse_web_config
        (Element (S ''configuration'') []
           [Element (S ''connectionStrings'') []
              [Element (S ''add'') [(S ''name'', []), (S ''connectionString'', S ''v'')] []]]) False
       = []
   \<and> parse_web_config
        (Element (S ''configuration'') []
           [Element (S ''connectionStrings'') []
              [Element (S ''add'') [(S ''name'', S ''k''), (S ''connectionString'', [])] []]]) False
       = [(S ''k'', [])]"
proof -
  have loops: "(attrib_get add (S ''key'') = Some [] \<longrightarrow>
      app_settings_loop sp (add # adds) out = app_settings_loop sp adds out)
   \<and> (attrib_get add (S ''key'') = Some k \<and> k \<noteq> [] \<and> attrib_get add (S ''value'') = Some [] \<longrightarrow>
      app_settings_loop sp (add # adds) out
        = app_settings_loop sp adds (dict_set (if sp then S ''appSettings.'' @ k else k) [] out))
   \<and> (attrib_get add (S ''name'') = Some [] \<longrightarrow>
      conns_loop sp (add # adds) out = conns_loop sp adds out)
   \<and> (attrib_get add (S ''name'') = Some k \<and> k \<noteq> []
        \<and> attrib_get add (S ''connectionString'') = Some [] \<longrightarrow>
      conns_loop sp (add # adds) out
        = conns_loop sp adds (dict_set (if sp then S ''connectionStrings.'' @ k else k) [] out))"
    by (auto split: option.splits)
  have docs: "parse_web_config
        (Element (S ''configuration'') []
           [Element (S ''appSettings'') []
              [Element (S ''add'') [(S ''key'', []), (S ''value'', S ''v'')] []]]) False = []"
    "parse_web_config
        (Element (S ''configuration'') []
           [Element (S ''appSettings'') []
              [Element (S ''add'') [(S ''key'', S ''k''), (S ''value'', [])] []]]) False
       = [(S ''k'', [])]"
    "parse_web_config
        (Element (S ''configuration'') []
           [Element (S ''connectionStrings'') []
              [Element (S ''add'') [(S ''name'', []), (S ''connectionString'', S ''v'')] []]]) False
       = []"
    "parse_web_config
        (Element (S ''configuration'') []
           [Element (S ''connectionStrings'') []
              [Element (S ''add'') [(S ''name'', S ''k''), (S ''connectionString'', [])] []]]) False
       = [(S ''k'', [])]"
    by (simp_all add: parse_web_config_def xml_find_def xml_findall_def attrib_get_def S_def)
  from loops docs show ?thesis by blast
qed

theorem parse_web_config_empty_attributes_witness:
  "attrib_get (Element (S ''add'') [(S ''key'', []), (S ''value'', S ''v'')] []) (S ''key'') = Some []
   \<and> app_settings_loop True [Element (S ''add'') [(S ''key'', []), (S ''value'', S ''v'')] []] [] = []
   \<and> attrib_get (Element (S ''add'') [(S ''key'', S ''k''), (S ''value'', [])] []) (S ''value'') = Some []
   \<and> app_settings_loop True [Element (S ''add'') [(S ''key'', S ''k''), (S ''value'', [])] []] []
       = [(S ''appSettings.k'', [])]
   \<and> conns_loop True [Element (S ''add'') [(S ''name'', []), (S ''connectionString'', S ''v'')] []] [] = []
   \<and> conns_loop True [Element (S ''add'') [(S ''name'', S ''k''), (S ''connectionString'', [])] []] []
       = [(S ''connectionStrings.k'', [])]"
  using parse_web_config_empty_attributes
      [of "Element (S ''add'') [(S ''key'', []), (S ''value'', S ''v'')] []" True "[]" "[]" "S ''k''"]
    parse_web_config_empty_attributes
      [of "Element (S ''add'') [(S ''key'', S ''k''), (S ''value'', [])] []" True "[]" "[]" "S ''k''"]
    parse_web_config_empty_attributes
      [of "Element (S ''add'') [(S ''name'', []), (S ''connectionString'', S ''v'')] []" True "[]" "[]" "S ''k''"]
    parse_web_config_empty_attributes
      [of "Element (S ''add'') [(S ''name'', S ''k''), (S ''connectionString'', [])] []" True "[]" "[]" "S ''k''"]
  by (simp add: attrib_get_def S_def)

section \<open>Publishing\<close>

subsection \<open>Validation\<close>

lemma blank_iff: "strip s = [] \<longleftrightarrow> list_all py_isspace s"
proof -
  define d where "d = dropWhile py_isspace s"
  have "dropWhile py_isspace (rev d) = [] \<longleftrightarrow> d = []"
  proof
    assume a: "dropWhile py_isspace (rev d) = []"
    show "d = []"
    proof (rule ccontr)
      assume "d \<noteq> []"
      then have "\<not> py_isspace (hd d)" unfolding d_def by (rule hd_dropWhile)
      moreover from \<open>d \<noteq> []\<close> have "hd d \<in> set (rev d)" by simp
      ultimately show False using a by (auto simp: dropWhile_eq_Nil_conv)
    qed
  next
    assume "d = []"
    then show "dropWhile py_isspace (rev d) = []" by simp
  qed
  then have "strip s = [] \<longleftrightarrow> d = []" by (simp add: strip_def d_def)
  then show ?thesis by (simp add: d_def dropWhile_eq_Nil_conv list_all_iff)
qed

lemma missing_fields_blank:
  "missing_fields fd =
     (if list_all py_isspace (fd_organization fd) then [S ''Organization''] else [])
     @ (if list_all py_isspace (fd_project fd) then [S ''Project''] else [])
     @ (if list_all py_isspace (fd_pat_token fd) then [S ''PAT Token''] else [])
     @ (if list_all py_isspace (fd_variable_group_name fd) then [S ''Variable Group Name''] else [])"
  by (simp add: missing_fields_def blank_iff)

lemma create_vg_missing:
  "missing_fields (request_form data) \<noteq> [] \<Longrightarrow>
   create_vg e data s =
     (failure (S ''Eksik alanlar: '' @ join (S '', '') (missing_fields (request_form data))),
      (init_session s)\<lparr>sess_form_data := Some (request_form data)\<rparr>, [])"
  by (simp add: create_vg_def Let_def)

lemma create_vg_no_variables:
  "missing_fields (request_form data) = [] \<Longrightarrow>
   pr_variables data = None \<or> pr_variables data = Some [] \<Longrightarrow>
   create_vg e data s =
     (failure (S ''En az bir de'' @ [0x11F] @ S ''i'' @ [0x15F] @ S ''ken ekleyin.''),
      (init_session s)\<lparr>sess_form_data := Some (request_form data)\<rparr>, [])"
  by (auto simp: create_vg_def Let_def)

text \<open>
  Claim C4. A publish request in which organization, project, token or group name is blank
  (empty, or whitespace only) is answered with the missing-fields failure, whose message
  lists the labels of exactly the blank fields, in the order organization, project, token,
  group name; a request with all four filled and an empty or absent variable list is answered
  with the add-at-least-one-variable failure. In both cases no remote call is made. With
  only the organization empty the message names \<^verbatim>\<open>Organization\<close> alone.
\<close>

theorem create_vg_validation:
  "missing_fields (request_form data) =
     (if list_all py_isspace (fd_organization (request_form data)) then [S ''Organization''] else [])
     @ (if list_all py_isspace (fd_project (request_form data)) then [S ''Project''] else [])
     @ (if list_all py_isspace (fd_pat_token (request_form data)) then [S ''PAT Token''] else [])
     @ (if list_all py_isspace (fd_variable_group_name (request_form data))
        then [S ''Variable Group Name''] else [])
   \<and> (missing_fields (request_form data) \<noteq> [] \<longrightarrow>
        create_vg e data s =
          (failure (S ''Eksik alanlar: '' @ join (S '', '') (missing_fields (request_form data))),
           (init_session s)\<lparr>sess_form_data := Some (request_form data)\<rparr>, []))
   \<and> (missing_fields (request_form data) = []
        \<and> (pr_variables data = None \<or> pr_variables data = Some []) \<longrightarrow>
        create_vg e data s =
          (failure (S ''En az bir de'' @ [0x11F] @ S ''i'' @ [0x15F] @ S ''ken ekleyin.''),
           (init_session s)\<lparr>sess_form_data := Some (request_form data)\<rparr>, []))
   \<and> create_vg e (example_request\<lparr>pr_organization := Some []\<rparr>) s =
        (failure (S ''Eksik alanlar: Organization''),
         (init_session s)\<lparr>sess_form_data :=
            Some (request_form (example_request\<lparr>pr_organization := Some []\<rparr>))\<rparr>, [])"
proof -
  have ex: "missing_fields (request_form (example_request\<lparr>pr_organization := Some []\<rparr>))
            = [S ''Organization'']"
    by (simp add: missing_fields_def request_form_def example_request_def get_or_empty_def
        strip_def py_isspace_def S_def)
  have "create_vg e (example_request\<lparr>pr_organization := Some []\<rparr>) s =
        (failure (S ''Eksik alanlar: Organization''),
         (init_session s)\<lparr>sess_form_data :=
            Some (request_form (example_request\<lparr>pr_organization := Some []\<rparr>))\<rparr>, [])"
    using create_vg_missing [of "example_request\<lparr>pr_organization := Some []\<rparr>" e s]
    by (simp add: ex S_def)
  then show ?thesis
    using missing_fields_blank [of "request_form data"] create_vg_missing [of data e s]
      create_vg_no_variables [of data e s]
    by blast
qed

theorem create_vg_validation_witness:
  "missing_fields (request_form (example_request\<lparr>pr_project := Some (S ''  ''), pr_pat_token := None\<rparr>))
     = [S ''Project'', S ''PAT Token'']
   \<and> create_vg (service 201 (Inr (JObj []))) (example_request\<lparr>pr_project := Some (S ''  ''), pr_pat_token := None\<rparr>)
        example_session
      = (failure (S ''Eksik alanlar: Project, PAT Token''),
         (init_session example_session)\<lparr>sess_form_data :=
            Some (request_form (example_request\<lparr>pr_project := Some (S ''  ''), pr_pat_token := None\<rparr>))\<rparr>, [])
   \<and> missing_fields (request_form (example_request\<lparr>pr_variables := Some []\<rparr>)) = []
   \<and> create_vg (service 201 (Inr (JObj []))) (example_request\<lparr>pr_variables := Some []\<rparr>) example_session
      = (failure (S ''En az bir de'' @ [0x11F] @ S ''i'' @ [0x15F] @ S ''ken ekleyin.''),
         (init_session example_session)\<lparr>sess_form_data :=
            Some (request_form (example_request\<lparr>pr_variables := Some []\<rparr>))\<rparr>, [])"
proof -
  let ?d1 = "example_request\<lparr>pr_project := Some (S ''  ''), pr_pat_token := None\<rparr>"
  let ?d2 = "example_request\<lparr>pr_variables := Some []\<rparr>"
  let ?e = "service 201 (Inr (JObj []))"
  have 1: "missing_fields (request_form ?d1) = [S ''Project'', S ''PAT Token'']"
    by (simp add: missing_fields_def request_form_def example_request_def get_or_empty_def
        strip_def py_isspace_def S_def)
  have 2: "missing_fields (request_form ?d2) = []"
    by (simp add: missing_fields_def request_form_def example_request_def get_or_empty_def
        strip_def py_isspace_def S_def)
  have "missing_fields (request_form ?d1) \<noteq> [] \<longrightarrow>
        create_vg ?e ?d1 example_session =
          (failure (S ''Eksik alanlar: '' @ join (S '', '') (missing_fields (request_form ?d1))),
           (init_session example_session)\<lparr>sess_form_data := Some (request_form ?d1)\<rparr>, [])"
    using create_vg_validation [of ?d1 ?e example_session] by blast
  then have a: "create_vg ?e ?d1 example_session =
          (failure (S ''Eksik alanlar: Project, PAT Token''),
           (init_session example_session)\<lparr>sess_form_data := Some (request_form ?d1)\<rparr>, [])"
    unfolding 1 by (simp add: S_def)
  have "missing_fields (request_form ?d2) = []
        \<and> (pr_variables ?d2 = None \<or> pr_variables ?d2 = Some []) \<longrightarrow>
        create_vg ?e ?d2 example_session =
          (failure (S ''En az bir de'' @ [0x11F] @ S ''i'' @ [0x15F] @ S ''ken ekleyin.''),
           (init_session example_session)\<lparr>sess_form_data := Some (request_form ?d2)\<rparr>, [])"
    using create_vg_validation [of ?d2 ?e example_session] by blast
  then have b: "create_vg ?e ?d2 example_session =
          (failure (S ''En az bir de'' @ [0x11F] @ S ''i'' @ [0x15F] @ S ''ken ekleyin.''),
           (init_session example_session)\<lparr>sess_form_data := Some (request_form ?d2)\<rparr>, [])"
    using 2 by simp
  from 1 a 2 b show ?thesis by blast
qed

subsection \<open>The project resolution\<close>

lemma get_project_id_calls:
  "snd (get_project_id e organization project pat_token)
     = [GET (project_url organization project) pat_token]"
  by (simp add: get_project_id_def project_url_def Let_def)

lemma create_variable_group_calls:
  "snd (create_variable_group e organization project pid vg_name description table pat_token)
     = [POST (variable_groups_url organization) pat_token
          (vg_payload project pid vg_name description table)]"
  by (simp add: create_variable_group_def variable_groups_url_def Let_def)

lemma get_project_id_ok:
  "fst (get_project_id e organization project pat_token) = Inr (True, pid) \<Longrightarrow>
     \<exists>r. http_get e (project_url organization project) pat_token = Inr r \<and> status_code r = 200"
  by (auto simp: get_project_id_def project_url_def Let_def split: sum.splits if_splits)

lemma code_message:
  "(case body_json r of
      Inl m \<Rightarrow> JStr (body_text r)
    | Inr j \<Rightarrow>
        (case json_get j (S ''message'') (JStr (body_text r)) of
           Inl x \<Rightarrow> JStr (body_text r)
         | Inr m \<Rightarrow> m)) = best_effort_message r"
proof (cases "body_json r")
  case (Inl m)
  then show ?thesis by (simp add: best_effort_message_def)
next
  case (Inr j)
  then show ?thesis by (cases j) (simp_all add: best_effort_message_def)
qed

lemma get_project_id_fail:
  "http_get e (project_url organization project) pat_token = Inr r \<Longrightarrow> status_code r \<noteq> 200 \<Longrightarrow>
   get_project_id e organization project pat_token =
     (Inr (False, JStr (str_int (status_code r) @ S '': ''
                         @ py_str (container_repr e) (best_effort_message r))),
      [GET (project_url organization project) pat_token])"
  using code_message [of r]
  by (simp add: get_project_id_def project_url_def Let_def)

lemma create_vg_submits_after_200:
  assumes "POST u t p \<in> set (snd (snd (create_vg e data s)))"
  shows "\<exists>r. http_get e (project_url (fd_organization (request_form data))
                  (fd_project (request_form data))) (fd_pat_token (request_form data)) = Inr r
             \<and> status_code r = 200"
proof -
  let ?f = "request_form data"
  obtain res calls where g:
    "get_project_id e (fd_organization ?f) (fd_project ?f) (fd_pat_token ?f) = (res, calls)"
    by (cases "get_project_id e (fd_organization ?f) (fd_project ?f) (fd_pat_token ?f)")
  from g get_project_id_calls [of e "fd_organization ?f" "fd_project ?f" "fd_pat_token ?f"]
  have calls: "calls = [GET (project_url (fd_organization ?f) (fd_project ?f)) (fd_pat_token ?f)]"
    by simp
  have "res = Inr (True, snd (projr res)) \<and> isl res = False"
  proof (rule ccontr)
    assume n: "\<not> (res = Inr (True, snd (projr res)) \<and> isl res = False)"
    have "POST u t p \<notin> set (snd (snd (create_vg e data s)))"
    proof (cases res)
      case (Inl x)
      then show ?thesis using g calls by (simp add: create_vg_def Let_def)
    next
      case (Inr b)
      obtain ok pid where b: "b = (ok, pid)" by (cases b)
      with Inr n have "\<not> ok" by auto
      with Inr b show ?thesis using g calls by (simp add: create_vg_def Let_def)
    qed
    with assms show False by simp
  qed
  then have "fst (get_project_id e (fd_organization ?f) (fd_project ?f) (fd_pat_token ?f))
             = Inr (True, snd (projr res))"
    using g by simp
  then show ?thesis by (rule get_project_id_ok)
qed

lemma create_vg_resolve_failed:
  assumes "missing_fields (request_form data) = []"
    and "pr_variables data = Some vs" and "vs \<noteq> []"
    and "http_get e (project_url (fd_organization (request_form data))
                  (fd_project (request_form data))) (fd_pat_token (request_form data)) = Inr r"
    and "status_code r \<noteq> 200"
  shows "create_vg e data s =
     (failure (S ''Proje bilgileri al'' @ [0x131] @ S ''namad'' @ [0x131] @ S '': ''
               @ str_int (status_code r) @ S '': ''
               @ py_str (container_repr e) (best_effort_message r)),
      (init_session s)\<lparr>sess_form_data := Some (request_form data)\<rparr>,
      [GET (project_url (fd_organization (request_form data)) (fd_project (request_form data)))
         (fd_pat_token (request_form data))])"
  using assms(1,2,3) get_project_id_fail [OF assms(4,5)]
  by (simp add: create_vg_def Let_def)

lemma example_form:
  "missing_fields (request_form example_request) = []"
  "fd_organization (request_form example_request) = S ''org''"
  "fd_project (request_form example_request) = S ''proj''"
  "fd_pat_token (request_form example_request) = S ''pat''"
  "fd_variable_group_name (request_form example_request) = S ''G''"
  "fd_vg_description (request_form example_request) = []"
  "pr_variables example_request = Some [example_row]"
  by (simp_all add: missing_fields_def request_form_def example_request_def get_or_empty_def
      strip_def py_isspace_def S_def)

text \<open>
  Claim C5. In every publish run a submission call is attempted only if the
  project-resolution call answered with status 200. When the request passes validation and
  the resolution answers with another status, publish returns the failure whose message
  carries that status code and the best-effort message (the \<^verbatim>\<open>message\<close> member of a
  decoded object body, the raw body otherwise), and the resolution call is the only remote
  call made. A 404 with the body \<^verbatim>\<open>{"message": "no such project"}\<close> is reported as
  \<^verbatim>\<open>404: no such project\<close>.
\<close>

theorem create_vg_resolution_gate:
  "((\<exists>u t p. POST u t p \<in> set (snd (snd (create_vg e data s)))) \<longrightarrow>
      (\<exists>r. http_get e (project_url (fd_organization (request_form data))
                  (fd_project (request_form data))) (fd_pat_token (request_form data)) = Inr r
           \<and> status_code r = 200))
   \<and> (missing_fields (request_form data) = [] \<and> pr_variables data = Some vs \<and> vs \<noteq> []
       \<and> http_get e (project_url (fd_organization (request_form data))
                  (fd_project (request_form data))) (fd_pat_token (request_form data)) = Inr r
       \<and> status_code r \<noteq> 200 \<longrightarrow>
       create_vg e data s =
         (failure (S ''Proje bilgileri al'' @ [0x131] @ S ''namad'' @ [0x131] @ S '': ''
                   @ str_int (status_code r) @ S '': ''
                   @ py_str (container_repr e) (best_effort_message r)),
          (init_session s)\<lparr>sess_form_data := Some (request_form data)\<rparr>,
          [GET (project_url (fd_organization (request_form data)) (fd_project (request_form data)))
             (fd_pat_token (request_form data))]))
   \<and> create_vg
        (failing_lookup 404 (S ''raw'') (Inr (JObj [(S ''message'', JStr (S ''no such project''))])))
        example_request s =
         (failure (S ''Proje bilgileri al'' @ [0x131] @ S ''namad'' @ [0x131]
                   @ S '': 404: no such project''),
          (init_session s)\<lparr>sess_form_data := Some (request_form example_request)\<rparr>,
          [GET (S ''https://dev.azure.com/org/_apis/projects/proj?api-version=7.1-preview.4'')
             (S ''pat'')])"
proof -
  let ?e = "failing_lookup 404 (S ''raw'') (Inr (JObj [(S ''message'', JStr (S ''no such project''))]))"
  let ?r = "\<lparr>status_code = 404, body_text = S ''raw'',
             body_json = Inr (JObj [(S ''message'', JStr (S ''no such project''))])\<rparr>"
  have get: "http_get ?e (project_url (fd_organization (request_form example_request))
                  (fd_project (request_form example_request)))
               (fd_pat_token (request_form example_request)) = Inr ?r"
    by (simp add: failing_lookup_def)
  have st: "status_code ?r \<noteq> 200" by simp
  have "create_vg ?e example_request s =
         (failure (S ''Proje bilgileri al'' @ [0x131] @ S ''namad'' @ [0x131] @ S '': ''
                   @ str_int (status_code ?r) @ S '': ''
                   @ py_str (container_repr ?e) (best_effort_message ?r)),
          (init_session s)\<lparr>sess_form_data := Some (request_form example_request)\<rparr>,
          [GET (project_url (fd_organization (request_form example_request))
                  (fd_project (request_form example_request)))
             (fd_pat_token (request_form example_request))])"
    using example_form(1) example_form(7) _ get st by (rule create_vg_resolve_failed) simp
  then have example: "create_vg ?e example_request s =
         (failure (S ''Proje bilgileri al'' @ [0x131] @ S ''namad'' @ [0x131]
                   @ S '': 404: no such project''),
          (init_session s)\<lparr>sess_form_data := Some (request_form example_request)\<rparr>,
          [GET (S ''https://dev.azure.com/org/_apis/projects/proj?api-version=7.1-preview.4'')
             (S ''pat'')])"
    by (simp add: example_form project_url_def best_effort_message_def str_int_def
        str_nat.simps S_def)
  show ?thesis
    using create_vg_submits_after_200 [of _ _ _ e data s]
      create_vg_resolve_failed [of data vs e r s] example
    by blast
qed

theorem create_vg_resolution_gate_witness:
  "missing_fields (request_form example_request) = []
   \<and> pr_variables example_request = Some [example_row]
   \<and> http_get (failing_lookup 500 (S ''oops'') (Inl (S ''not JSON'')))
        (project_url (fd_organization (request_form example_request))
           (fd_project (request_form example_request)))
        (fd_pat_token (request_form example_request))
       = Inr \<lparr>status_code = 500, body_text = S ''oops'', body_json = Inl (S ''not JSON'')\<rparr>
   \<and> create_vg (failing_lookup 500 (S ''oops'') (Inl (S ''not JSON''))) example_request
        example_session =
         (failure (S ''Proje bilgileri al'' @ [0x131] @ S ''namad'' @ [0x131] @ S '': 500: oops''),
          (init_session example_session)\<lparr>sess_form_data := Some (request_form example_request)\<rparr>,
          [GET (S ''https://dev.azure.com/org/_apis/projects/proj?api-version=7.1-preview.4'')
             (S ''pat'')])"
proof -
  let ?e = "failing_lookup 500 (S ''oops'') (Inl (S ''not JSON''))"
  let ?r = "\<lparr>status_code = 500, body_text = S ''oops'', body_json = Inl (S ''not JSON'')\<rparr>"
  have get: "http_get ?e (project_url (fd_organization (request_form example_request))
                  (fd_project (request_form example_request)))
               (fd_pat_token (request_form example_request)) = Inr ?r"
    by (simp add: failing_lookup_def)
  have "missing_fields (request_form example_request) = []
        \<and> pr_variables example_request = Some [example_row] \<and> [example_row] \<noteq> []
        \<and> http_get ?e (project_url (fd_organization (request_form example_request))
                  (fd_project (request_form example_request)))
               (fd_pat_token (request_form example_request)) = Inr ?r
        \<and> status_code ?r \<noteq> 200"
    using get example_form(1) example_form(7) by simp
  with create_vg_resolution_gate [of ?e example_request example_session "[example_row]" ?r]
  have "create_vg ?e example_request example_session =
         (failure (S ''Proje bilgileri al'' @ [0x131] @ S ''namad'' @ [0x131] @ S '': ''
                   @ str_int (status_code ?r) @ S '': ''
                   @ py_str (container_repr ?e) (best_effort_message ?r)),
          (init_session example_session)\<lparr>sess_form_data := Some (request_form example_request)\<rparr>,
          [GET (project_url (fd_organization (request_form example_request))
                  (fd_project (request_form example_request)))
             (fd_pat_token (request_form example_request))])"
    by blast
  then have "create_vg ?e example_request example_session =
         (failure (S ''Proje bilgileri al'' @ [0x131] @ S ''namad'' @ [0x131] @ S '': 500: oops''),
          (init_session example_session)\<lparr>sess_form_data := Some (request_form example_request)\<rparr>,
          [GET (S ''https://dev.azure.com/org/_apis/projects/proj?api-version=7.1-preview.4'')
             (S ''pat'')])"
    by (simp add: example_form project_url_def best_effort_message_def str_int_def
        str_nat.simps S_def)
  with get example_form(1) example_form(7) show ?thesis by blast
qed

subsection \<open>The submission\<close>

lemma get_project_id_resolved:
  "http_get e (project_url organization project) pat_token = Inr r \<Longrightarrow> status_code r = 200 \<Longrightarrow>
   body_json r = Inr (JObj kvs) \<Longrightarrow>
   get_project_id e organization project pat_token =
     (Inr (True, case map_of kvs (S ''id'') of Some v \<Rightarrow> v | None \<Rightarrow> JStr []),
      [GET (project_url organization project) pat_token])"
  by (simp add: get_project_id_def project_url_def Let_def)

lemma create_variable_group_answered:
  "http_post e (variable_groups_url organization) pat_token
      (vg_payload project pid vg_name description table) = Inr r \<Longrightarrow>
   create_variable_group e organization project pid vg_name description table pat_token =
     (Inr (r, vg_payload project pid vg_name description table),
      [POST (variable_groups_url organization) pat_token
         (vg_payload project pid vg_name description table)])"
  by (simp add: create_variable_group_def variable_groups_url_def Let_def)

lemma success_response_object:
  "py_len (case map_of kvs (S ''variables'') of Some v \<Rightarrow> v | None \<Rightarrow> JObj []) = Inr n \<Longrightarrow>
   success_response e (JObj kvs) =
     Inr \<lparr>resp_success = True,
          resp_message = Some
            (success_msg
               (py_str (container_repr e) (case map_of kvs (S ''id'') of Some v \<Rightarrow> v | None \<Rightarrow> JNull))
               (py_str (container_repr e) (case map_of kvs (S ''name'') of Some v \<Rightarrow> v | None \<Rightarrow> JNull))
               (str_nat n)),
          resp_variables = None, resp_error_detail = None\<rparr>"
  by (simp add: success_response_def)

text \<open>
  Claim C6, as amended. When the request passes validation, the project resolution answers
  200 with an object body, and the submission answers 200 or 201 with a body that decodes
  to an object whose \<^verbatim>\<open>variables\<close> member is absent or is an object, an array or a text,
  publish returns success with the confirmation that embeds the \<^verbatim>\<open>id\<close> and \<^verbatim>\<open>name\<close>
  members of that body (\<^verbatim>\<open>None\<close> for one that is absent) and the length of
  \<^verbatim>\<open>variables\<close> (0 when absent), and it leaves the session with the empty variable set.
  For the body \<^verbatim>\<open>{"id": 7, "name": "G", "variables": {"a": 1, "b": 2}}\<close> the message ends
  in \<^verbatim>\<open>ID: 7 | Ad: G\<close> and the count 2.
\<close>

theorem create_vg_published:
  assumes "missing_fields (request_form data) = []"
    and "pr_variables data = Some vs" and "vs \<noteq> []"
    and "http_get e (project_url (fd_organization (request_form data))
            (fd_project (request_form data))) (fd_pat_token (request_form data)) = Inr r1"
    and "status_code r1 = 200" and "body_json r1 = Inr (JObj kvs1)"
    and "pid = (case map_of kvs1 (S ''id'') of Some v \<Rightarrow> v | None \<Rightarrow> JStr [])"
    and "payload = vg_payload (fd_project (request_form data)) pid
            (fd_variable_group_name (request_form data)) (fd_vg_description (request_form data)) vs"
    and "http_post e (variable_groups_url (fd_organization (request_form data)))
            (fd_pat_token (request_form data)) payload = Inr r2"
    and "status_code r2 = 200 \<or> status_code r2 = 201"
    and "body_json r2 = Inr (JObj kvs2)"
    and "py_len (case map_of kvs2 (S ''variables'') of Some v \<Rightarrow> v | None \<Rightarrow> JObj []) = Inr n"
  shows "create_vg e data s =
     (\<lparr>resp_success = True,
       resp_message = Some
         (success_msg
            (py_str (container_repr e) (case map_of kvs2 (S ''id'') of Some v \<Rightarrow> v | None \<Rightarrow> JNull))
            (py_str (container_repr e) (case map_of kvs2 (S ''name'') of Some v \<Rightarrow> v | None \<Rightarrow> JNull))
            (str_nat n)),
       resp_variables = None, resp_error_detail = None\<rparr>,
      (init_session s)\<lparr>sess_form_data := Some (request_form data), sess_variables := Some []\<rparr>,
      [GET (project_url (fd_organization (request_form data)) (fd_project (request_form data)))
         (fd_pat_token (request_form data)),
       POST (variable_groups_url (fd_organization (request_form data)))
         (fd_pat_token (request_form data)) payload])
    \<and> session_variables (fst (snd (create_vg e data s))) = []
    \<and> fst (create_vg
          (service 201 (Inr (JObj [(S ''id'', JInt 7), (S ''name'', JStr (S ''G'')),
             (S ''variables'', JObj [(S ''a'', JInt 1), (S ''b'', JInt 2)])])))
          example_request example_session)
      = \<lparr>resp_success = True, resp_message = Some (success_msg (S ''7'') (S ''G'') (S ''2'')),
         resp_variables = None, resp_error_detail = None\<rparr>
    \<and> session_variables (fst (snd (create_vg
          (service 201 (Inr (JObj [(S ''id'', JInt 7), (S ''name'', JStr (S ''G'')),
             (S ''variables'', JObj [(S ''a'', JInt 1), (S ''b'', JInt 2)])])))
          example_request example_session))) = []"
proof -
  have g: "get_project_id e (fd_organization (request_form data)) (fd_project (request_form data))
             (fd_pat_token (request_form data)) =
           (Inr (True, pid),
            [GET (project_url (fd_organization (request_form data)) (fd_project (request_form data)))
               (fd_pat_token (request_form data))])"
    unfolding assms(7) using assms(4,5,6) by (rule get_project_id_resolved)
  have p: "create_variable_group e (fd_organization (request_form data))
             (fd_project (request_form data)) pid (fd_variable_group_name (request_form data))
             (fd_vg_description (request_form data)) vs (fd_pat_token (request_form data)) =
           (Inr (r2, payload),
            [POST (variable_groups_url (fd_organization (request_form data)))
               (fd_pat_token (request_form data)) payload])"
    unfolding assms(8) using assms(9) [unfolded assms(8)] by (rule create_variable_group_answered)
  have main: "create_vg e data s =
     (\<lparr>resp_success = True,
       resp_message = Some
         (success_msg
            (py_str (container_repr e) (case map_of kvs2 (S ''id'') of Some v \<Rightarrow> v | None \<Rightarrow> JNull))
            (py_str (container_repr e) (case map_of kvs2 (S ''name'') of Some v \<Rightarrow> v | None \<Rightarrow> JNull))
            (str_nat n)),
       resp_variables = None, resp_error_detail = None\<rparr>,
      (init_session s)\<lparr>sess_form_data := Some (request_form data), sess_variables := Some []\<rparr>,
      [GET (project_url (fd_organization (request_form data)) (fd_project (request_form data)))
         (fd_pat_token (request_form data)),
       POST (variable_groups_url (fd_organization (request_form data)))
         (fd_pat_token (request_form data)) payload])"
    using assms(1,2,3,10,11) success_response_object [OF assms(12), of e]
    by (auto simp: create_vg_def Let_def g p)
  let ?x = "create_vg
          (service 201 (Inr (JObj [(S ''id'', JInt 7), (S ''name'', JStr (S ''G'')),
             (S ''variables'', JObj [(S ''a'', JInt 1), (S ''b'', JInt 2)])])))
          example_request example_session"
  have ex1: "fst ?x
      = \<lparr>resp_success = True, resp_message = Some (success_msg (S ''7'') (S ''G'') (S ''2'')),
         resp_variables = None, resp_error_detail = None\<rparr>"
    by (simp add: create_vg_def Let_def example_form get_project_id_def
        create_variable_group_def service_def success_response_def str_int_def str_nat.simps
        S_def)
  have ex2: "session_variables (fst (snd ?x)) = []"
    by (simp add: create_vg_def Let_def example_form get_project_id_def
        create_variable_group_def service_def success_response_def session_variables_def
        S_def)
  have "session_variables (fst (snd (create_vg e data s))) = []"
    unfolding main by (simp add: session_variables_def)
  with main ex1 ex2 show ?thesis by blast
qed

text \<open>
  Claim C6 as stated fails when the body of a 201 answer does not decode: the catch-all
  handler reports an unexpected error and the session keeps its variable set.
\<close>

theorem create_vg_undecodable_counterexample:
  "\<not> resp_success (fst (create_vg (service 201 (Inl (S ''not JSON''))) example_request
        example_session))
   \<and> session_variables (fst (snd (create_vg (service 201 (Inl (S ''not JSON''))) example_request
        example_session))) = [example_row]
   \<and> length (snd (snd (create_vg (service 201 (Inl (S ''not JSON''))) example_request
        example_session))) = 2"
  by (simp add: create_vg_def Let_def example_form get_project_id_def
      create_variable_group_def service_def unexpected_def failure_def session_variables_def
      init_session_def example_session_def)

theorem create_vg_published_witness:
  "create_vg (service 200 (Inr (JObj [(S ''id'', JInt 12)]))) example_request example_session =
     (\<lparr>resp_success = True,
       resp_message = Some (success_msg (S ''12'') (S ''None'') (S ''0'')),
       resp_variables = None, resp_error_detail = None\<rparr>,
      (init_session example_session)\<lparr>sess_form_data := Some (request_form example_request),
         sess_variables := Some []\<rparr>,
      [GET (project_url (S ''org'') (S ''proj'')) (S ''pat''),
       POST (variable_groups_url (S ''org'')) (S ''pat'')
         (vg_payload (S ''proj'') (JStr (S ''p1'')) (S ''G'') [] [example_row])])"
proof -
  let ?e = "service 200 (Inr (JObj [(S ''id'', JInt 12)]))"
  let ?r1 = "\<lparr>status_code = 200, body_text = [],
               body_json = Inr (JObj [(S ''id'', JStr (S ''p1''))])\<rparr>"
  let ?r2 = "\<lparr>status_code = 200, body_text = [], body_json = Inr (JObj [(S ''id'', JInt 12)])\<rparr>"
  let ?payload = "vg_payload (fd_project (request_form example_request)) (JStr (S ''p1''))
            (fd_variable_group_name (request_form example_request))
            (fd_vg_description (request_form example_request)) [example_row]"
  have 4: "http_get ?e (project_url (fd_organization (request_form example_request))
            (fd_project (request_form example_request)))
            (fd_pat_token (request_form example_request)) = Inr ?r1"
    by (simp add: service_def)
  have 7: "JStr (S ''p1'') = (case map_of [(S ''id'', JStr (S ''p1''))] (S ''id'') of
              Some v \<Rightarrow> v | None \<Rightarrow> JStr [])"
    by simp
  have 9: "http_post ?e (variable_groups_url (fd_organization (request_form example_request)))
            (fd_pat_token (request_form example_request)) ?payload = Inr ?r2"
    by (simp add: service_def)
  have 12: "py_len (case map_of [(S ''id'', JInt 12)] (S ''variables'') of
              Some v \<Rightarrow> v | None \<Rightarrow> JObj []) = Inr 0"
    by (simp add: S_def)
  have "create_vg ?e example_request example_session =
     (\<lparr>resp_success = True,
       resp_message = Some
         (success_msg
            (py_str (container_repr ?e)
               (case map_of [(S ''id'', JInt 12)] (S ''id'') of Some v \<Rightarrow> v | None \<Rightarrow> JNull))
            (py_str (container_repr ?e)
               (case map_of [(S ''id'', JInt 12)] (S ''name'') of Some v \<Rightarrow> v | None \<Rightarrow> JNull))
            (str_nat 0)),
       resp_variables = None, resp_error_detail = None\<rparr>,
      (init_session example_session)\<lparr>sess_form_data := Some (request_form example_request),
         sess_variables := Some []\<rparr>,
      [GET (project_url (fd_organization (request_form example_request))
              (fd_project (request_form example_request)))
         (fd_pat_token (request_form example_request)),
       POST (variable_groups_url (fd_organization (request_form example_request)))
         (fd_pat_token (request_form example_request)) ?payload])"
    using create_vg_published [OF example_form(1) example_form(7) _ 4 _ _ 7 refl 9 _ _ 12,
        of example_session]
    by simp
  then show ?thesis
    by (simp add: example_form str_int_def str_nat.simps S_def)
qed

subsection \<open>The payload\<close>

lemma variables_loop_fold:
  "variables_loop rows acc =
     fold (\<lambda>(k, v) d. dict_set k v d)
       (map (\<lambda>r. (payload_key r, variable_entry r)) (filter (\<lambda>r. payload_key r \<noteq> []) rows)) acc"
  by (induction rows arbitrary: acc) (simp_all add: Let_def)

lemma variables_loop_trimmed: "variables_loop rows [] = variables_trimmed rows"
  by (simp add: variables_loop_fold variables_trimmed_def dict_of_def)

lemma fold_dict_set_distinct:
  "distinct (map fst (acc @ kvs)) \<Longrightarrow> fold (\<lambda>(k, v) d. dict_set k v d) kvs acc = acc @ kvs"
proof (induction kvs arbitrary: acc)
  case Nil
  show ?case by simp
next
  case (Cons a kvs)
  obtain k v where a: "a = (k, v)" by (cases a)
  from Cons.prems a have "k \<notin> set (map fst acc)" by auto
  then have 1: "dict_set k v acc = acc @ [(k, v)]" by (rule dict_set_absent)
  from Cons.prems a have "distinct (map fst ((acc @ [(k, v)]) @ kvs))" by simp
  from Cons.IH [OF this] show ?case by (simp add: a 1)
qed

lemma variables_trimmed_distinct:
  "distinct (map payload_key (filter (\<lambda>r. payload_key r \<noteq> []) rows)) \<Longrightarrow>
   variables_trimmed rows =
     map (\<lambda>r. (payload_key r, variable_entry r)) (filter (\<lambda>r. payload_key r \<noteq> []) rows)"
  using fold_dict_set_distinct
    [of "[]" "map (\<lambda>r. (payload_key r, variable_entry r)) (filter (\<lambda>r. payload_key r \<noteq> []) rows)"]
  by (simp add: variables_trimmed_def dict_of_def comp_def)

lemma payload_key_blank:
  "payload_key r = [] \<longleftrightarrow> list_all py_isspace (case row_key r of None \<Rightarrow> [] | Some k \<Rightarrow> k)"
  by (simp add: payload_key_def blank_iff)

text \<open>
  Claim C7, as amended. For every record list the payload holds the type marker
  \<^verbatim>\<open>Vsts\<close>, the group name, the description (the placeholder \<^verbatim>\<open>Created via Flask UI\<close>
  when it is empty), the project reference, and a variables object built from the records
  whose key is not blank (empty, whitespace only, or absent): each is stored under its key
  with the surrounding whitespace removed, a later record taking the place of an earlier one
  with the same trimmed key, so that records with distinct trimmed keys give one entry each,
  in their order. The entry of a record holds its value and, exactly when its flag is
  true, \<^verbatim>\<open>isSecret\<close>. A record whose key is blank contributes nothing.
\<close>

theorem vg_payload_contents:
  "vg_payload project pid vg_name description rows =
     JObj [(S ''type'', JStr (S ''Vsts'')),
           (S ''name'', JStr vg_name),
           (S ''description'',
              JStr (if description = [] then S ''Created via Flask UI'' else description)),
           (S ''variables'', JObj (variables_trimmed rows)),
           (S ''variableGroupProjectReferences'',
              JArr [JObj [(S ''projectReference'',
                             JObj [(S ''id'', pid), (S ''name'', JStr project)]),
                          (S ''name'', JStr vg_name),
                          (S ''description'',
                             JStr (if description = [] then S ''Created via Flask UI''
                                   else description))]])]
   \<and> (distinct (map payload_key (filter (\<lambda>r. payload_key r \<noteq> []) rows)) \<longrightarrow>
        variables_trimmed rows =
          map (\<lambda>r. (payload_key r, variable_entry r)) (filter (\<lambda>r. payload_key r \<noteq> []) rows))
   \<and> variable_entry r =
        JObj ((S ''value'', JStr (case row_value r of None \<Rightarrow> [] | Some v \<Rightarrow> v))
              # (if row_isSecret r = Some True then [(S ''isSecret'', JBool True)] else []))
   \<and> (payload_key r = [] \<longleftrightarrow>
        list_all py_isspace (case row_key r of None \<Rightarrow> [] | Some k \<Rightarrow> k))
   \<and> (payload_key r = [] \<longrightarrow>
        variables_trimmed (rows1 @ r # rows2) = variables_trimmed (rows1 @ rows2))"
proof -
  have payload: "vg_payload project pid vg_name description rows =
     JObj [(S ''type'', JStr (S ''Vsts'')),
           (S ''name'', JStr vg_name),
           (S ''description'',
              JStr (if description = [] then S ''Created via Flask UI'' else description)),
           (S ''variables'', JObj (variables_trimmed rows)),
           (S ''variableGroupProjectReferences'',
              JArr [JObj [(S ''projectReference'',
                             JObj [(S ''id'', pid), (S ''name'', JStr project)]),
                          (S ''name'', JStr vg_name),
                          (S ''description'',
                             JStr (if description = [] then S ''Created via Flask UI''
                                   else description))]])]"
    by (simp add: vg_payload_def Let_def variables_loop_trimmed)
  have entry: "variable_entry r =
        JObj ((S ''value'', JStr (case row_value r of None \<Rightarrow> [] | Some v \<Rightarrow> v))
              # (if row_isSecret r = Some True then [(S ''isSecret'', JBool True)] else []))"
    by (auto simp: variable_entry_def split: option.splits)
  have blank: "payload_key r = [] \<longrightarrow>
        variables_trimmed (rows1 @ r # rows2) = variables_trimmed (rows1 @ rows2)"
    by (simp add: variables_trimmed_def)
  from payload entry blank variables_trimmed_distinct [of rows] payload_key_blank [of r]
  show ?thesis by blast
qed

theorem vg_payload_contents_witness:
  "variables_trimmed
     [\<lparr>row_key = Some (S ''a''), row_value = Some (S ''1''), row_isSecret = Some True\<rparr>,
      \<lparr>row_key = Some (S '' ''), row_value = Some (S ''2''), row_isSecret = Some False\<rparr>,
      \<lparr>row_key = Some (S ''b''), row_value = None, row_isSecret = None\<rparr>]
   = [(S ''a'', JObj [(S ''value'', JStr (S ''1'')), (S ''isSecret'', JBool True)]),
      (S ''b'', JObj [(S ''value'', JStr [])])]"
proof -
  let ?rows = "[\<lparr>row_key = Some (S ''a''), row_value = Some (S ''1''), row_isSecret = Some True\<rparr>,
      \<lparr>row_key = Some (S '' ''), row_value = Some (S ''2''), row_isSecret = Some False\<rparr>,
      \<lparr>row_key = Some (S ''b''), row_value = None, row_isSecret = None\<rparr>]"
  have keys: "payload_key \<lparr>row_key = Some (S ''a''), row_value = Some (S ''1''), row_isSecret = Some True\<rparr> = S ''a''"
    "payload_key \<lparr>row_key = Some (S '' ''), row_value = Some (S ''2''), row_isSecret = Some False\<rparr> = []"
    "payload_key \<lparr>row_key = Some (S ''b''), row_value = None, row_isSecret = None\<rparr> = S ''b''"
    by (simp_all add: payload_key_def strip_def py_isspace_def S_def)
  have d: "distinct (map payload_key (filter (\<lambda>r. payload_key r \<noteq> []) ?rows))"
    by (simp add: keys) (simp add: S_def)
  have "variables_trimmed ?rows =
          map (\<lambda>r. (payload_key r, variable_entry r)) (filter (\<lambda>r. payload_key r \<noteq> []) ?rows)"
    using vg_payload_contents [of _ _ _ _ ?rows] d by blast
  then show ?thesis
    by (simp add: keys variable_entry_def) (simp add: S_def)
qed

text \<open>
  Claim C7 as stated fails for a key with surrounding whitespace: the record with the key
  \<^verbatim>\<open>" a"\<close> is stored under \<^verbatim>\<open>"a"\<close>, and the payload has no entry under the record's own
  key.
\<close>

theorem vg_payload_key_counterexample:
  "variables_loop
     [\<lparr>row_key = Some (S '' a''), row_value = Some (S ''1''), row_isSecret = Some False\<rparr>] []
   = [(S ''a'', JObj [(S ''value'', JStr (S ''1''))])]
   \<and> variables_spec
     [\<lparr>row_key = Some (S '' a''), row_value = Some (S ''1''), row_isSecret = Some False\<rparr>]
   = [(S '' a'', JObj [(S ''value'', JStr (S ''1''))])]
   \<and> map_of (variables_loop
       [\<lparr>row_key = Some (S '' a''), row_value = Some (S ''1''), row_isSecret = Some False\<rparr>] [])
       (S '' a'') = None"
  by (simp add: payload_key_def variables_spec_def variable_entry_def strip_def py_isspace_def
      S_def)

section \<open>The invariant of the session variable set\<close>

lemma session_variables_init: "session_variables (init_session s) = session_variables s"
  by (simp add: init_session_def session_variables_def Let_def)

lemma keys_unique_overlay:
  assumes "index_by_key rows [] = Inr cv"
  shows "keys_unique (map snd (overlay flat cv))"
proof -
  from index_by_key_inv [OF assms] have "keyed cv" "distinct (map fst cv)"
    by (simp_all add: keyed_def)
  then show ?thesis by (intro keyed_keys_unique keyed_overlay overlay_distinct)
qed

lemma load_data_variables:
  "session_variables (snd (load_data req s)) = session_variables s
   \<or> (\<exists>cv flat. index_by_key (session_variables s) [] = Inr cv
        \<and> resp_success (fst (load_data req s))
        \<and> session_variables (snd (load_data req s)) = map snd (overlay flat cv))"
proof (cases "index_by_key (session_variables s) []")
  case (Inl x)
  then show ?thesis
    by (simp add: load_data_def Let_def session_variables_init)
next
  case (Inr cv)
  have stored: "session_variables (snd (import_done l n d t)) = map snd d
              \<and> resp_success (fst (import_done l n d t))" for l n d t
    by (simp add: import_done_def Let_def session_variables_def)
  show ?thesis
    using Inr stored
    by (auto simp: load_data_def Let_def session_variables_init split: sum.splits)
qed

lemma load_data_failure_keeps:
  "\<not> resp_success (fst (load_data req s)) \<Longrightarrow>
     session_variables (snd (load_data req s)) = session_variables s"
  using load_data_variables [of req s] by auto

lemma load_data_unique:
  "keys_unique (session_variables s) \<Longrightarrow> keys_unique (session_variables (snd (load_data req s)))"
  using load_data_variables [of req s] keys_unique_overlay by auto

lemma load_data_success_unique:
  "resp_success (fst (load_data req s)) \<Longrightarrow> keys_unique (session_variables (snd (load_data req s)))"
proof -
  assume ok: "resp_success (fst (load_data req s))"
  have "\<exists>cv flat. index_by_key (session_variables s) [] = Inr cv
        \<and> session_variables (snd (load_data req s)) = map snd (overlay flat cv)"
  proof (cases "index_by_key (session_variables s) []")
    case (Inl x)
    with ok show ?thesis by (simp add: load_data_def Let_def session_variables_init failure_def)
  next
    case (Inr cv)
    have stored: "session_variables (snd (import_done l n d t)) = map snd d" for l n d t
      by (simp add: import_done_def Let_def session_variables_def)
    from ok Inr show ?thesis
      by (auto simp: load_data_def Let_def session_variables_init failure_def stored
          split: sum.splits if_splits)
  qed
  then show ?thesis using keys_unique_overlay by auto
qed

lemma create_vg_variables:
  "session_variables (fst (snd (create_vg e data s))) = session_variables s
   \<or> session_variables (fst (snd (create_vg e data s))) = []"
proof -
  have keep: "session_variables ((init_session s)\<lparr>sess_form_data := f\<rparr>) = session_variables s" for f
    using session_variables_init [of s] by (simp add: session_variables_def)
  have clear: "session_variables (t\<lparr>sess_variables := Some []\<rparr>) = []" for t :: session
    by (simp add: session_variables_def)
  show ?thesis
    by (auto simp: create_vg_def Let_def keep clear split: sum.splits prod.splits)
qed

lemma update_variables_variables:
  "session_variables (snd (update_variables ureq s))
     = (case upd_variables ureq of None \<Rightarrow> [] | Some vs \<Rightarrow> vs)"
  by (simp add: update_variables_def Let_def session_variables_def)

text \<open>
  Claim C2, as amended. Import-merge and publish keep the invariant that no two records of
  the session's variable set share a key: each leaves the set as it was, or stores a merge
  result, whose keys are those of a dictionary, or the empty set; a successful import even
  establishes the invariant. The direct replacement stores the submitted list as it is, so
  after it the invariant holds exactly when the submitted list has no two records with the
  same key.
\<close>

theorem session_keys_unique:
  "(keys_unique (session_variables s) \<longrightarrow>
      keys_unique (session_variables (snd (load_data req s)))
      \<and> keys_unique (session_variables (fst (snd (create_vg e data s)))))
   \<and> (resp_success (fst (load_data req s)) \<longrightarrow>
      keys_unique (session_variables (snd (load_data req s))))
   \<and> session_variables (snd (update_variables ureq s))
      = (case upd_variables ureq of None \<Rightarrow> [] | Some vs \<Rightarrow> vs)
   \<and> (keys_unique (session_variables (snd (update_variables ureq s)))
      \<longleftrightarrow> keys_unique (case upd_variables ureq of None \<Rightarrow> [] | Some vs \<Rightarrow> vs))"
proof -
  have publish: "keys_unique (session_variables s) \<longrightarrow>
      keys_unique (session_variables (fst (snd (create_vg e data s))))"
    using create_vg_variables [of e data s] by (auto simp: keys_unique_def)
  show ?thesis
    using load_data_unique [of s req] load_data_success_unique [of req s] publish
      update_variables_variables [of ureq s]
    by simp
qed

theorem session_keys_unique_witness:
  "keys_unique (session_variables example_session)
   \<and> session_variables (snd (load_data
        \<lparr>req_type = Some (S ''json''),
         req_json = Inr (JObj [(S ''a'', JInt 5), (S ''b'', JNull)]),
         req_xml = Inl []\<rparr> example_session))
     = [\<lparr>row_key = Some (S ''a''), row_value = Some (S ''5''), row_isSecret = Some False\<rparr>,
        \<lparr>row_key = Some (S ''b''), row_value = Some [], row_isSecret = Some False\<rparr>]
   \<and> keys_unique (session_variables (snd (load_data
        \<lparr>req_type = Some (S ''json''),
         req_json = Inr (JObj [(S ''a'', JInt 5), (S ''b'', JNull)]),
         req_xml = Inl []\<rparr> example_session)))
   \<and> keys_unique (session_variables (fst (snd (create_vg (service 201 (Inr (JObj [])))
        example_request example_session))))"
proof -
  let ?req = "\<lparr>req_type = Some (S ''json''),
         req_json = Inr (JObj [(S ''a'', JInt 5), (S ''b'', JNull)]),
         req_xml = Inl []\<rparr>"
  have h: "keys_unique (session_variables example_session)"
    by (simp add: keys_unique_def session_variables_def example_session_def)
  have v: "session_variables (snd (load_data ?req example_session))
     = [\<lparr>row_key = Some (S ''a''), row_value = Some (S ''5''), row_isSecret = Some False\<rparr>,
        \<lparr>row_key = Some (S ''b''), row_value = Some [], row_isSecret = Some False\<rparr>]"
    by (simp add: load_data_def Let_def session_variables_init import_done_def
        session_variables_def example_session_def example_row_def overlay_def imported_row_def
        flatten_json_def new_key_def str_int_def str_nat.simps init_session_def S_def)
  from session_keys_unique [of example_session ?req "service 201 (Inr (JObj []))" example_request]
    h v show ?thesis by blast
qed

text \<open>
  Claim C2 as stated fails for the direct replacement: a submitted list with the same key
  twice is stored as it is.
\<close>

theorem update_variables_duplicate_counterexample:
  "keys_unique (session_variables \<lparr>sess_variables = Some [], sess_form_data = None\<rparr>)
   \<and> \<not> keys_unique (session_variables (snd (update_variables
        \<lparr>upd_variables = Some [example_row, example_row]\<rparr>
        \<lparr>sess_variables = Some [], sess_form_data = None\<rparr>)))"
  by (simp add: keys_unique_def session_variables_def update_variables_def Let_def)

end
